theory Spec2Isabelle
  imports Main
begin

section \<open>Tokens\<close>

text \<open>
  The arithmetic expression evaluator of \<^verbatim>\<open>Source Code/main.cpp\<close>: a tokenizer
  (\<^verbatim>\<open>EnhancedTokenizer::tokenize\<close>), an infix-to-postfix converter
  (\<^verbatim>\<open>ImprovedParser::parse\<close>) and a postfix evaluator
  (\<^verbatim>\<open>RefinedEvaluator::evaluate\<close>), glued by \<^verbatim>\<open>handleExpression\<close>.
\<close>

datatype TokenType = NUMBER | OPERATOR | PARENTHESIS | INVALID

record Token =
  "value" :: string
  type :: TokenType

section \<open>The tokenizer\<close>

text \<open>
  Character classes. A \<^verbatim>\<open>char\<close> is a byte; \<^verbatim>\<open>std::isdigit\<close> and
  \<^verbatim>\<open>std::isspace\<close> are those of the default "C" locale.
\<close>

definition isdigit :: "char \<Rightarrow> bool" where
  "isdigit c = (c \<in> set ''0123456789'')"

definition isspace :: "char \<Rightarrow> bool" where
  "isspace c = (c \<in> set [CHR '' '', CHR 0x09, CHR 0x0A, CHR 0x0B, CHR 0x0C, CHR 0x0D])"

definition isOperator :: "char \<Rightarrow> bool" where
  "isOperator c = (c = CHR ''+'' \<or> c = CHR ''-'' \<or> c = CHR ''*'' \<or> c = CHR ''/''
     \<or> c = CHR ''%'' \<or> c = CHR ''^'')"

text \<open>
  The input stream \<^verbatim>\<open>iss\<close> is the list of characters not yet read.
  \<^verbatim>\<open>iss >> c\<close> skips white space and then reads one character; it fails
  (\<open>None\<close>) when only white space is left.
\<close>

definition extract_char :: "string \<Rightarrow> (char \<times> string) option" where
  "extract_char iss = (case dropWhile isspace iss of [] \<Rightarrow> None | c # rest \<Rightarrow> Some (c, rest))"

text \<open>
  The inner loop \<^verbatim>\<open>while (iss.peek() != EOF && (isdigit(iss.peek()) || iss.peek() == '.'))
  number += iss.get();\<close> It returns the number string and the stream that is left.
\<close>

definition number_char :: "char \<Rightarrow> bool" where
  "number_char c = (isdigit c \<or> c = CHR ''.'')"

fun read_number :: "string \<Rightarrow> string \<Rightarrow> string \<times> string" where
  "read_number number [] = (number, [])"
| "read_number number (p # iss) =
     (if number_char p then read_number (number @ [p]) iss else (number, p # iss))"

lemma read_number_eq:
  "read_number number iss = (number @ takeWhile number_char iss, dropWhile number_char iss)"
  by (induction iss arbitrary: number) simp_all

lemma extract_char_shorter:
  "extract_char iss = Some (c, rest) \<Longrightarrow> length rest < length iss"
proof -
  assume "extract_char iss = Some (c, rest)"
  then have "dropWhile isspace iss = c # rest"
    by (simp add: extract_char_def split: list.splits)
  then have "length (dropWhile isspace iss) = Suc (length rest)"
    by simp
  moreover have "length (dropWhile isspace iss) \<le> length iss"
    by (rule length_dropWhile_le)
  ultimately show ?thesis by simp
qed

lemma read_number_shorter:
  "read_number number iss = (number', rest) \<Longrightarrow> length rest \<le> length iss"
  using length_dropWhile_le [of number_char iss] by (auto simp: read_number_eq)

text \<open>
  The outer loop \<^verbatim>\<open>while (iss >> c)\<close>, with the loop state: the stream, the flag
  \<^verbatim>\<open>mayBeUnary\<close> and the vector \<^verbatim>\<open>tokens\<close>. An invalid character returns a
  fresh one-element vector at once.
\<close>

function tokenize_loop :: "string \<Rightarrow> bool \<Rightarrow> Token list \<Rightarrow> Token list" where
  "tokenize_loop iss mayBeUnary tokens =
     (case extract_char iss of
        None \<Rightarrow> tokens
      | Some (c, rest) \<Rightarrow>
          if isdigit c \<or> c = CHR ''.'' then
            (case read_number [c] rest of
               (number, rest') \<Rightarrow>
                 tokenize_loop rest' False (tokens @ [\<lparr>value = number, type = NUMBER\<rparr>]))
          else if isOperator c then
            tokenize_loop rest True
              (if c = CHR ''-'' \<and> mayBeUnary then tokens @ [\<lparr>value = ''~'', type = OPERATOR\<rparr>]
               else if c = CHR ''+'' \<and> mayBeUnary then tokens
               else tokens @ [\<lparr>value = [c], type = OPERATOR\<rparr>])
          else if c = CHR ''('' \<or> c = CHR '')'' then
            tokenize_loop rest (c = CHR ''('') (tokens @ [\<lparr>value = [c], type = PARENTHESIS\<rparr>])
          else if \<not> isspace c then [\<lparr>value = [c], type = INVALID\<rparr>]
          else tokenize_loop rest mayBeUnary tokens)"
  by pat_completeness auto
termination
proof (relation "measure (\<lambda>(iss, mayBeUnary, tokens). length iss)")
  show "wf (measure (\<lambda>(iss, mayBeUnary, tokens). length iss))"
    by simp
next
  fix iss :: string and mayBeUnary :: bool and tokens :: "Token list"
    and x2 c rest x y
  assume e: "extract_char iss = Some x2" "(c, rest) = x2"
    and r: "(x, y) = read_number [c] rest"
  from e have "length rest < length iss"
    by (auto dest: extract_char_shorter)
  moreover from r have "length y \<le> length rest"
    by (auto dest: read_number_shorter [OF sym])
  ultimately show "((y, False, tokens @ [\<lparr>value = x, type = NUMBER\<rparr>]), iss, mayBeUnary, tokens)
      \<in> measure (\<lambda>(iss, mayBeUnary, tokens). length iss)"
    by simp
qed (auto dest: extract_char_shorter)

declare tokenize_loop.simps [simp del]

definition tokenize :: "string \<Rightarrow> Token list" where
  "tokenize expression = tokenize_loop expression True []"

section \<open>The converter\<close>

text \<open>
  The table \<^verbatim>\<open>std::map<std::string, int> precedence\<close>. A lookup
  \<^verbatim>\<open>precedence[key]\<close> of a key that is absent inserts the key with the value
  \<open>0\<close> and returns \<open>0\<close>; a later lookup of that key reads the same \<open>0\<close>, so
  the lookups of one call of \<^verbatim>\<open>parse\<close> are those of \<open>precedence_at\<close>.
\<close>

definition precedence :: "string \<rightharpoonup> int" where
  "precedence = map_of
     [(''~'', 4), (''^'', 3), (''*'', 2), (''/'', 2), (''%'', 2), (''+'', 1), (''-'', 1)]"

definition precedence_at :: "string \<Rightarrow> int" where
  "precedence_at key = (case precedence key of None \<Rightarrow> 0 | Some p \<Rightarrow> p)"

text \<open>
  The operator stack is a list with the top first, the output queue a list with the
  front first. The loop of the operator case (lines 97 to 101): pop to the output while
  the top's precedence is at least the incoming operator's.
\<close>

fun pop_by_precedence :: "Token \<Rightarrow> Token list \<Rightarrow> Token list \<Rightarrow> Token list \<times> Token list" where
  "pop_by_precedence token [] outputQueue = ([], outputQueue)"
| "pop_by_precedence token (stackTop # operatorStack) outputQueue =
     (if precedence_at (value stackTop) \<ge> precedence_at (value token)
      then pop_by_precedence token operatorStack (outputQueue @ [stackTop])
      else (stackTop # operatorStack, outputQueue))"

text \<open>The loop of the closing parenthesis (lines 109 to 112).\<close>

fun pop_to_open :: "Token list \<Rightarrow> Token list \<Rightarrow> Token list \<times> Token list" where
  "pop_to_open [] outputQueue = ([], outputQueue)"
| "pop_to_open (stackTop # operatorStack) outputQueue =
     (if value stackTop \<noteq> ''(''
      then pop_to_open operatorStack (outputQueue @ [stackTop])
      else (stackTop # operatorStack, outputQueue))"

text \<open>
  \<^verbatim>\<open>parse\<close> has three statements \<^verbatim>\<open>return std::queue<Token>()\<close>: at an invalid
  token (line 89), at a closing parenthesis that finds no opening one (line 117), and
  in the final loop at a parenthesis left on the stack (line 127). The model of the
  loops records which one was taken; \<open>parse\<close> itself returns the empty queue for each.
\<close>

datatype early_return = Invalid_token | Unmatched_closing | Unmatched_opening

fun parse_loop :: "Token list \<Rightarrow> Token list \<Rightarrow> Token list \<Rightarrow> early_return + Token list \<times> Token list" where
  "parse_loop [] operatorStack outputQueue = Inr (operatorStack, outputQueue)"
| "parse_loop (token # tokens) operatorStack outputQueue =
     (if type token = INVALID then Inl Invalid_token
      else if type token = NUMBER then parse_loop tokens operatorStack (outputQueue @ [token])
      else if type token = OPERATOR then
        (case pop_by_precedence token operatorStack outputQueue of
           (operatorStack', outputQueue') \<Rightarrow> parse_loop tokens (token # operatorStack') outputQueue')
      else if type token = PARENTHESIS then
        (if value token = ''('' then parse_loop tokens (token # operatorStack) outputQueue
         else
           (case pop_to_open operatorStack outputQueue of
              ([], outputQueue') \<Rightarrow> Inl Unmatched_closing
            | (stackTop # operatorStack', outputQueue') \<Rightarrow>
                if value stackTop = ''('' then parse_loop tokens operatorStack' outputQueue'
                else Inl Unmatched_closing))
      else parse_loop tokens operatorStack outputQueue)"

text \<open>The final loop (lines 124 to 131).\<close>

fun pop_remaining :: "Token list \<Rightarrow> Token list \<Rightarrow> early_return + Token list" where
  "pop_remaining [] outputQueue = Inr outputQueue"
| "pop_remaining (stackTop # operatorStack) outputQueue =
     (if type stackTop = PARENTHESIS then Inl Unmatched_opening
      else pop_remaining operatorStack (outputQueue @ [stackTop]))"

definition parse_run :: "Token list \<Rightarrow> early_return + Token list" where
  "parse_run tokens =
     (case parse_loop tokens [] [] of
        Inl r \<Rightarrow> Inl r
      | Inr (operatorStack, outputQueue) \<Rightarrow> pop_remaining operatorStack outputQueue)"

definition parse :: "Token list \<Rightarrow> Token list" where
  "parse tokens = (case parse_run tokens of Inl r \<Rightarrow> [] | Inr outputQueue \<Rightarrow> outputQueue)"

section \<open>Double precision numbers\<close>

text \<open>
  A \<^verbatim>\<open>double\<close> is an IEEE 754 binary64 number: \<open>Finite s m e\<close> is
  \<open>(-1)\<^sup>s \<sqdot> m \<sqdot> 2\<^sup>e\<close> with \<open>0 \<le> m < 2\<^sup>5\<^sup>3\<close> and \<open>-1074 \<le> e \<le> 971\<close>, where
  \<open>2\<^sup>5\<^sup>2 \<le> m\<close> unless \<open>e = -1074\<close> (zero and the subnormal numbers). The sign
  \<open>s\<close> is \<open>True\<close> for a negative number. The payload and sign of a NaN are not modelled.
\<close>

datatype double = Finite bool int int | Infinity bool | NaN

function bit_length :: "int \<Rightarrow> int" where
  "bit_length n = (if n \<le> 0 then 0 else 1 + bit_length (n div 2))"
  by pat_completeness auto
termination
  by (relation "measure nat") auto

function pow2 :: "int \<Rightarrow> int" where
  "pow2 k = (if k \<le> 0 then 1 else 2 * pow2 (k - 1))"
  by pat_completeness auto
termination
  by (relation "measure nat") auto

declare bit_length.simps [simp del] pow2.simps [simp del]

text \<open>
  \<open>round_ratio s n d\<close> is the binary64 number nearest to \<open>(-1)\<^sup>s \<sqdot> n / d\<close>
  (for \<open>0 \<le> n\<close> and \<open>0 < d\<close>), ties to the even significand, infinite beyond the
  largest finite number: the rounding of the default rounding mode. With
  \<open>k = bit_length n - bit_length d\<close> the quotient lies between \<open>2\<^sup>k\<^sup>-\<^sup>1\<close> and
  \<open>2\<^sup>k\<^sup>+\<^sup>1\<close>; \<open>l\<close> is its binary logarithm rounded down and \<open>e\<close> the exponent
  at which the significand has 53 bits, or the least exponent.
\<close>

definition round_ratio :: "bool \<Rightarrow> int \<Rightarrow> int \<Rightarrow> double" where
  "round_ratio s n d =
     (if n = 0 then Finite s 0 (- 1074)
      else
        let k = bit_length n - bit_length d;
            l = (if d * pow2 k \<le> n * pow2 (- k) then k else k - 1);
            e = max (l - 52) (- 1074);
            n' = n * pow2 (- e);
            d' = d * pow2 e;
            q = n' div d';
            r = n' mod d';
            m = (if d' < 2 * r \<or> (2 * r = d' \<and> odd q) then q + 1 else q);
            m' = (if m = pow2 53 then pow2 52 else m);
            e' = (if m = pow2 53 then e + 1 else e)
        in if 971 < e' then Infinity s else Finite s m' e')"

text \<open>The number nearest to \<open>(-1)\<^sup>s \<sqdot> n \<sqdot> 2\<^sup>e\<close>.\<close>

definition round_scaled :: "bool \<Rightarrow> int \<Rightarrow> int \<Rightarrow> double" where
  "round_scaled s n e = round_ratio s (n * pow2 e) (pow2 (- e))"

definition double_of_int :: "int \<Rightarrow> double" where
  "double_of_int n = round_ratio (n < 0) \<bar>n\<bar> 1"

text \<open>Unary minus \<^verbatim>\<open>-operand\<close>, and the test \<^verbatim>\<open>right == 0.0\<close>, true of both zeros.\<close>

fun dneg :: "double \<Rightarrow> double" where
  "dneg (Finite s m e) = Finite (\<not> s) m e"
| "dneg (Infinity s) = Infinity (\<not> s)"
| "dneg NaN = NaN"

fun is_zero :: "double \<Rightarrow> bool" where
  "is_zero (Finite s m e) = (m = 0)"
| "is_zero (Infinity s) = False"
| "is_zero NaN = False"

definition signed :: "bool \<Rightarrow> int \<Rightarrow> int" where
  "signed s m = (if s then - m else m)"

text \<open>
  The operators \<^verbatim>\<open>+ - * /\<close> on doubles: the exact result, rounded. A sum that is
  exactly zero is \<open>-0\<close> only when both summands are negative (both are \<open>-0\<close> then).
\<close>

fun dadd :: "double \<Rightarrow> double \<Rightarrow> double" where
  "dadd NaN y = NaN"
| "dadd x NaN = NaN"
| "dadd (Infinity s) (Infinity t) = (if s = t then Infinity s else NaN)"
| "dadd (Infinity s) (Finite t m e) = Infinity s"
| "dadd (Finite s m e) (Infinity t) = Infinity t"
| "dadd (Finite s1 m1 e1) (Finite s2 m2 e2) =
     (let e = min e1 e2;
          t = signed s1 (m1 * pow2 (e1 - e)) + signed s2 (m2 * pow2 (e2 - e))
      in if t = 0 then Finite (s1 \<and> s2) 0 (- 1074) else round_scaled (t < 0) \<bar>t\<bar> e)"

definition dsub :: "double \<Rightarrow> double \<Rightarrow> double" where
  "dsub x y = dadd x (dneg y)"

fun dmul :: "double \<Rightarrow> double \<Rightarrow> double" where
  "dmul NaN y = NaN"
| "dmul x NaN = NaN"
| "dmul (Infinity s) (Infinity t) = Infinity (s \<noteq> t)"
| "dmul (Infinity s) (Finite t m e) = (if m = 0 then NaN else Infinity (s \<noteq> t))"
| "dmul (Finite s m e) (Infinity t) = (if m = 0 then NaN else Infinity (s \<noteq> t))"
| "dmul (Finite s1 m1 e1) (Finite s2 m2 e2) = round_scaled (s1 \<noteq> s2) (m1 * m2) (e1 + e2)"

fun ddiv :: "double \<Rightarrow> double \<Rightarrow> double" where
  "ddiv NaN y = NaN"
| "ddiv x NaN = NaN"
| "ddiv (Infinity s) (Infinity t) = NaN"
| "ddiv (Infinity s) (Finite t m e) = Infinity (s \<noteq> t)"
| "ddiv (Finite s m e) (Infinity t) = Finite (s \<noteq> t) 0 (- 1074)"
| "ddiv (Finite s1 m1 e1) (Finite s2 m2 e2) =
     (if m2 = 0 then (if m1 = 0 then NaN else Infinity (s1 \<noteq> s2))
      else round_ratio (s1 \<noteq> s2) (m1 * pow2 (e1 - e2)) (m2 * pow2 (e2 - e1)))"

text \<open>
  \<^verbatim>\<open>std::fmod\<close>: the remainder of the division truncated towards zero, with the
  sign of the first argument. It is a binary64 number, so the rounding changes nothing.
\<close>

fun fmod :: "double \<Rightarrow> double \<Rightarrow> double" where
  "fmod NaN y = NaN"
| "fmod x NaN = NaN"
| "fmod (Infinity s) y = NaN"
| "fmod (Finite s m e) (Infinity t) = Finite s m e"
| "fmod (Finite s1 m1 e1) (Finite s2 m2 e2) =
     (if m2 = 0 then NaN
      else let e = min e1 e2
           in round_scaled s1 ((m1 * pow2 (e1 - e)) mod (m2 * pow2 (e2 - e))) e)"

section \<open>The evaluator\<close>

text \<open>
  The exceptions of the evaluator: \<^verbatim>\<open>std::runtime_error\<close> with its message, thrown by
  \<^verbatim>\<open>evaluate\<close> and \<^verbatim>\<open>applyOperator\<close>, and \<^verbatim>\<open>std::invalid_argument\<close> and
  \<^verbatim>\<open>std::out_of_range\<close>, thrown by \<^verbatim>\<open>std::stod\<close>. The latter two derive from
  \<^verbatim>\<open>std::logic_error\<close>, not from \<^verbatim>\<open>std::runtime_error\<close>.
\<close>

datatype exn = runtime_error string | invalid_argument | out_of_range

text \<open>
  What the language standards leave to the implementation of the standard library is a
  parameter of the model: \<^verbatim>\<open>std::pow\<close>, whose accuracy is not prescribed;
  \<^verbatim>\<open>std::stod\<close> on the strings that have a character other than a digit or the
  decimal point (the tokenizer produces no such number lexeme); and whether
  \<^verbatim>\<open>strtod\<close> reports a range error when the value \<open>n / d\<close> underflows.
\<close>

record stdlib =
  pow :: "double \<Rightarrow> double \<Rightarrow> double"
  stod_other :: "string \<Rightarrow> exn + double"
  underflow_range_error :: "int \<Rightarrow> int \<Rightarrow> bool"

definition digit_value :: "char \<Rightarrow> int" where
  "digit_value c = of_char c - 48"

definition digits_value :: "string \<Rightarrow> int" where
  "digits_value ds = foldl (\<lambda>a c. 10 * a + digit_value c) 0 ds"

text \<open>
  \<^verbatim>\<open>strtod\<close> reports a range error when the value overflows: its rounding is
  infinite. The value \<open>n / d\<close> underflows when it is below the least normal number
  \<open>2\<^sup>-\<^sup>1\<^sup>0\<^sup>2\<^sup>2\<close> and its rounding \<open>v\<close> differs from it; the rounding has the
  least exponent then. Whether that is reported as a range error is for the library
  to say. A value that is zero or is a subnormal number itself does not underflow.
\<close>

fun overflows :: "double \<Rightarrow> bool" where
  "overflows (Finite s m e) = False"
| "overflows (Infinity s) = True"
| "overflows NaN = False"

fun underflows :: "int \<Rightarrow> int \<Rightarrow> double \<Rightarrow> bool" where
  "underflows n d (Finite s m e) =
     (e = - 1074 \<and> n * pow2 1022 < d \<and> m * d \<noteq> n * pow2 1074)"
| "underflows n d (Infinity s) = False"
| "underflows n d NaN = False"

text \<open>
  \<^verbatim>\<open>std::stod\<close> on a string of digits and decimal points. \<^verbatim>\<open>strtod\<close> converts the
  longest prefix of the form digits, optional point, digits, with at least one digit,
  and ignores what follows; \<^verbatim>\<open>std::stod\<close> throws \<^verbatim>\<open>std::invalid_argument\<close> when
  there is no such prefix and \<^verbatim>\<open>std::out_of_range\<close> on a range error.
\<close>

definition stod_decimal :: "stdlib \<Rightarrow> string \<Rightarrow> exn + double" where
  "stod_decimal lib s =
     (let ip = takeWhile isdigit s;
          fp = (case dropWhile isdigit s of
                  [] \<Rightarrow> []
                | c # rest \<Rightarrow> if c = CHR ''.'' then takeWhile isdigit rest else [])
      in if ip = [] \<and> fp = [] then Inl invalid_argument
         else
           let n = digits_value (ip @ fp);
               d = 10 ^ length fp;
               v = round_ratio False n d
           in if overflows v \<or> (underflows n d v \<and> underflow_range_error lib n d)
              then Inl out_of_range
              else Inr v)"

definition stod :: "stdlib \<Rightarrow> string \<Rightarrow> exn + double" where
  "stod lib s = (if list_all number_char s then stod_decimal lib s else stod_other lib s)"

definition apostrophe :: string where
  "apostrophe = [CHR 0x27]"

definition applyOperator :: "stdlib \<Rightarrow> double \<Rightarrow> double \<Rightarrow> string \<Rightarrow> exn + double" where
  "applyOperator lib left right op =
     (if op = ''+'' then Inr (dadd left right)
      else if op = ''-'' then Inr (dsub left right)
      else if op = ''*'' then Inr (dmul left right)
      else if op = ''/'' then Inr (ddiv left right)
      else if op = ''%'' then Inr (fmod left right)
      else if op = ''^'' then Inr (pow lib left right)
      else if op = ''~'' then Inr (dneg left)
      else Inl (runtime_error ''Unknown operator''))"

text \<open>
  The loop of \<^verbatim>\<open>evaluate\<close> over the queue, with the evaluation stack (top first).
  A token that is neither a number nor an operator is dropped.
\<close>

fun evaluate_loop :: "stdlib \<Rightarrow> Token list \<Rightarrow> double list \<Rightarrow> exn + double list" where
  "evaluate_loop lib [] evaluationStack = Inr evaluationStack"
| "evaluate_loop lib (token # parsedExpression) evaluationStack =
     (if type token = NUMBER then
        (case stod lib (value token) of
           Inl e \<Rightarrow> Inl e
         | Inr d \<Rightarrow> evaluate_loop lib parsedExpression (d # evaluationStack))
      else if type token = OPERATOR then
        (if value token = ''~'' then
           (case evaluationStack of
              [] \<Rightarrow> Inl (runtime_error ''Error: Insufficient operands for unary operator'')
            | operand # stack' \<Rightarrow> evaluate_loop lib parsedExpression (dneg operand # stack'))
         else
           (case evaluationStack of
              right # left # stack' \<Rightarrow>
                if (value token = ''/'' \<or> value token = ''%'') \<and> is_zero right
                then Inl (runtime_error ''Error: Attempted division/modulo by zero'')
                else
                  (case applyOperator lib left right (value token) of
                     Inl e \<Rightarrow> Inl e
                   | Inr result \<Rightarrow> evaluate_loop lib parsedExpression (result # stack'))
            | _ \<Rightarrow>
                Inl (runtime_error (''Error: Insufficient operands for operator '' @ apostrophe
                       @ value token @ apostrophe))))
      else evaluate_loop lib parsedExpression evaluationStack)"

definition evaluate :: "stdlib \<Rightarrow> Token list \<Rightarrow> exn + double" where
  "evaluate lib parsedExpression =
     (case evaluate_loop lib parsedExpression [] of
        Inl e \<Rightarrow> Inl e
      | Inr evaluationStack \<Rightarrow>
          if length evaluationStack \<noteq> 1 then Inl (runtime_error ''Error: Invalid expression format'')
          else Inr (hd evaluationStack))"

section \<open>The pipeline\<close>

text \<open>
  \<^verbatim>\<open>handleExpression\<close>, from the tokenizing of the line that was read to the value of
  \<^verbatim>\<open>result\<close>: the double that is printed, or a message. The \<^verbatim>\<open>catch\<close> clause
  handles \<^verbatim>\<open>std::runtime_error\<close> only; any other exception leaves the function and,
  as \<^verbatim>\<open>main\<close> has no handler, ends the program. The formatting of the double by
  \<^verbatim>\<open>operator<<\<close> is not modelled.
\<close>

datatype outcome = Result double | Message string | Uncaught exn

definition handleExpression :: "stdlib \<Rightarrow> string \<Rightarrow> outcome" where
  "handleExpression lib expression =
     (let tokens = tokenize expression
      in if tokens = [] \<or> (length tokens = 1 \<and> type (hd tokens) = INVALID)
         then Message ''Error, Invalid expression''
         else
           let parsedExpression = parse tokens
           in if parsedExpression = [] then Message ''Error, Invalid expression''
              else
                (case evaluate lib parsedExpression of
                   Inr evalResult \<Rightarrow> Result evalResult
                 | Inl (runtime_error what) \<Rightarrow> Message what
                 | Inl e \<Rightarrow> Uncaught e))"

section \<open>Auxiliary notions for the properties\<close>

text \<open>
  The characters the tokenizer does not reject: digits, the decimal point, the six
  operator characters, the two parentheses and white space.
\<close>

definition accepted_char :: "char \<Rightarrow> bool" where
  "accepted_char c = (isdigit c \<or> c = CHR ''.'' \<or> isOperator c \<or> c = CHR ''('' \<or> c = CHR '')''
     \<or> isspace c)"

text \<open>
  A library for the closed instances of the theorems: a \<open>pow\<close> that is exact at
  \<open>2\<^sup>3\<close> and \<open>8\<^sup>2\<close>, a \<open>stod\<close> that converts nothing but digits and points,
  and a \<open>strtod\<close> that reports every underflow as a range error.
\<close>

definition sample_stdlib :: stdlib where
  "sample_stdlib =
     \<lparr>pow = (\<lambda>x y. if x = double_of_int 2 \<and> y = double_of_int 3 then double_of_int 8
                    else if x = double_of_int 8 \<and> y = double_of_int 2 then double_of_int 64
                    else NaN),
      stod_other = (\<lambda>s. Inl invalid_argument),
      underflow_range_error = (\<lambda>n d. True)\<rparr>"

text \<open>
  The three situations in which the converter gives up. \<open>has_invalid\<close>: some token
  is invalid. \<open>closing_unmatched\<close>: at some position the tokens before it are
  converted without a failure, the token there is a parenthesis other than \<open>(\<close>, and
  the operator stack holds no \<open>(\<close>, so that the unwinding empties it.
  \<open>opening_unmatched\<close>: all tokens are consumed without a failure and a parenthesis
  is left on the operator stack.
\<close>

definition has_invalid :: "Token list \<Rightarrow> bool" where
  "has_invalid tokens = list_ex (\<lambda>t. type t = INVALID) tokens"

definition closing_unmatched_at :: "Token list \<Rightarrow> nat \<Rightarrow> bool" where
  "closing_unmatched_at tokens i =
     (case parse_loop (take i tokens) [] [] of
        Inl r \<Rightarrow> False
      | Inr (operatorStack, outputQueue) \<Rightarrow>
          type (tokens ! i) = PARENTHESIS \<and> value (tokens ! i) \<noteq> ''(''
          \<and> list_all (\<lambda>t. value t \<noteq> ''('') operatorStack)"

definition closing_unmatched :: "Token list \<Rightarrow> bool" where
  "closing_unmatched tokens = list_ex (closing_unmatched_at tokens) [0..<length tokens]"

definition opening_unmatched :: "Token list \<Rightarrow> bool" where
  "opening_unmatched tokens =
     (case parse_loop tokens [] [] of
        Inl r \<Rightarrow> False
      | Inr (operatorStack, outputQueue) \<Rightarrow> list_ex (\<lambda>t. type t = PARENTHESIS) operatorStack)"

text \<open>
  The token sequences in which every operator token carries one of the seven lexemes
  of the precedence table.
\<close>

definition operators_in_table :: "Token list \<Rightarrow> bool" where
  "operators_in_table tokens =
     list_all (\<lambda>t. type t = OPERATOR \<longrightarrow> precedence (value t) \<noteq> None) tokens"

text \<open>
  The canonical string of the round-trip property (a notion of the property, not a
  function of the program): the lexemes of the tokens, joined with single spaces.
  \<open>canonical_minus\<close> writes the lexeme \<open>~\<close> of the unary minus back as \<open>-\<close>.
\<close>

fun join_lexemes :: "string list \<Rightarrow> string" where
  "join_lexemes [] = []"
| "join_lexemes [x] = x"
| "join_lexemes (x # y # ys) = x @ '' '' @ join_lexemes (y # ys)"

definition canonical :: "Token list \<Rightarrow> string" where
  "canonical tokens = join_lexemes (map value tokens)"

definition written_lexeme :: "Token \<Rightarrow> string" where
  "written_lexeme t = (if type t = OPERATOR \<and> value t = ''~'' then ''-'' else value t)"

definition canonical_minus :: "Token list \<Rightarrow> string" where
  "canonical_minus tokens = join_lexemes (map written_lexeme tokens)"

text \<open>
  The token sequences that the tokenizer, started with the flag \<open>mayBeUnary\<close>, reads
  back from their canonical string: number lexemes of digits and points, operators
  \<open>+\<close> and \<open>-\<close> only where the flag is false, \<open>~\<close> only where it is true.
\<close>

fun retokenizable :: "bool \<Rightarrow> Token list \<Rightarrow> bool" where
  "retokenizable mayBeUnary [] = True"
| "retokenizable mayBeUnary (t # ts) =
     (case type t of
        NUMBER \<Rightarrow> value t \<noteq> [] \<and> list_all number_char (value t) \<and> retokenizable False ts
      | OPERATOR \<Rightarrow>
          (if value t = ''~'' then mayBeUnary
           else (case value t of
                   [c] \<Rightarrow> isOperator c \<and> \<not> ((c = CHR ''-'' \<or> c = CHR ''+'') \<and> mayBeUnary)
                 | _ \<Rightarrow> False))
          \<and> retokenizable True ts
      | PARENTHESIS \<Rightarrow>
          (value t = ''('' \<and> retokenizable True ts) \<or> (value t = '')'' \<and> retokenizable False ts)
      | INVALID \<Rightarrow> False)"

section \<open>The tokenizer rejects every foreign character\<close>

lemma uncons_None: "((case xs of [] \<Rightarrow> None | c # rest \<Rightarrow> Some (c, rest)) = None) = (xs = [])"
  by (cases xs) simp_all

lemma uncons_Some: "((case xs of [] \<Rightarrow> None | c # rest \<Rightarrow> Some (c, rest)) = Some (y, ys)) = (xs = y # ys)"
  by (cases xs) simp_all

lemma extract_char_None: "extract_char iss = None \<longleftrightarrow> list_all isspace iss"
proof -
  have "extract_char iss = None \<longleftrightarrow> dropWhile isspace iss = []"
    unfolding extract_char_def by (rule uncons_None)
  then show ?thesis
    by (simp add: dropWhile_eq_Nil_conv list_all_iff)
qed

lemma extract_char_Some:
  "extract_char iss = Some (c, rest) \<longleftrightarrow> iss = takeWhile isspace iss @ c # rest \<and> \<not> isspace c"
proof -
  have "extract_char iss = Some (c, rest) \<longleftrightarrow> dropWhile isspace iss = c # rest"
    unfolding extract_char_def by (rule uncons_Some)
  then show ?thesis
    by (simp add: dropWhile_eq_Cons_conv)
qed

lemma find_skip: "list_all (\<lambda>x. \<not> P x) ws \<Longrightarrow> List.find P (ws @ xs) = List.find P xs"
  by (induction ws) simp_all

lemma find_takeWhile_skip: "List.find (\<lambda>x. \<not> P x) (takeWhile P xs @ ys) = List.find (\<lambda>x. \<not> P x) ys"
  by (rule find_skip) (simp add: list_all_iff, meson set_takeWhileD)

lemma find_dropWhile: "List.find (\<lambda>x. \<not> Q x) (dropWhile P xs) = List.find (\<lambda>x. \<not> Q x) xs"
  if "\<And>x. P x \<Longrightarrow> Q x"
  using that by (induction xs) auto

lemma tokenize_loop_invalid:
  "List.find (\<lambda>c. \<not> accepted_char c) iss = Some c \<Longrightarrow>
   tokenize_loop iss mayBeUnary tokens = [\<lparr>value = [c], type = INVALID\<rparr>]"
proof (induction iss mayBeUnary tokens rule: tokenize_loop.induct)
  case (1 iss mayBeUnary tokens)
  let ?bad = "\<lambda>c. \<not> accepted_char c"
  show ?case
  proof (cases "extract_char iss")
    case None
    then have "list_all accepted_char iss"
      by (auto simp: extract_char_None list_all_iff accepted_char_def)
    then have "List.find ?bad iss = None"
      by (simp add: find_None_iff list_all_iff)
    with "1.prems" show ?thesis by simp
  next
    case (Some p)
    obtain ch rest where p: "p = (ch, rest)" by (cases p)
    with Some have ex: "extract_char iss = Some (ch, rest)" by simp
    then have iss: "iss = takeWhile isspace iss @ ch # rest" and ns: "\<not> isspace ch"
      by (simp_all add: extract_char_Some)
    have "List.find ?bad iss = List.find ?bad (ch # rest)"
      by (subst iss, rule find_skip)
        (auto simp: list_all_iff accepted_char_def dest: set_takeWhileD)
    with "1.prems" have f: "List.find ?bad (ch # rest) = Some c" by simp
    consider (num) "isdigit ch \<or> ch = CHR ''.''"
      | (op) "\<not> (isdigit ch \<or> ch = CHR ''.'')" "isOperator ch"
      | (par) "\<not> (isdigit ch \<or> ch = CHR ''.'')" "\<not> isOperator ch" "ch = CHR ''('' \<or> ch = CHR '')''"
      | (inv) "\<not> (isdigit ch \<or> ch = CHR ''.'')" "\<not> isOperator ch" "\<not> (ch = CHR ''('' \<or> ch = CHR '')'')"
      by blast
    then show ?thesis
    proof cases
      case num
      obtain number rest' where rn: "read_number [ch] rest = (number, rest')"
        by (cases "read_number [ch] rest")
      then have rest': "rest' = dropWhile number_char rest"
        by (simp add: read_number_eq)
      from num f have "List.find ?bad rest = Some c"
        by (auto simp: accepted_char_def)
      then have "List.find ?bad rest' = Some c"
        unfolding rest' by (subst find_dropWhile) (auto simp: number_char_def accepted_char_def)
      from "1.IH"(1) [OF Some p [symmetric] num rn [symmetric] this]
      show ?thesis
        using ex num rn by (subst tokenize_loop.simps) simp
    next
      case op
      with f have fr: "List.find ?bad rest = Some c"
        by (auto simp: accepted_char_def)
      from "1.IH"(2) [OF Some p [symmetric] op fr]
      show ?thesis
        using ex op by (subst tokenize_loop.simps) simp
    next
      case par
      with f have fr: "List.find ?bad rest = Some c"
        by (auto simp: accepted_char_def)
      from "1.IH"(3) [OF Some p [symmetric] par fr]
      show ?thesis
        using ex par by (subst tokenize_loop.simps) simp
    next
      case inv
      with ns f have "c = ch"
        by (auto simp: accepted_char_def)
      then show ?thesis
        using ex inv ns by (subst tokenize_loop.simps) simp
    qed
  qed
qed

text \<open>
  C4. If the expression contains a character that is neither white space, a digit, the
  decimal point, an operator character nor a parenthesis, then \<open>tokenize\<close> returns
  exactly one token: its kind is \<open>INVALID\<close> and its lexeme is the first such
  character. The tokens collected before it are not returned.
\<close>

theorem tokenize_invalid_character:
  "List.find (\<lambda>c. \<not> accepted_char c) expression = Some c \<Longrightarrow>
   tokenize expression = [\<lparr>value = [c], type = INVALID\<rparr>]"
  unfolding tokenize_def by (rule tokenize_loop_invalid)

theorem tokenize_invalid_character_witness:
  "List.find (\<lambda>c. \<not> accepted_char c) ''3 @ 4'' = Some (CHR ''@'') \<and>
   tokenize ''3 @ 4'' = [\<lparr>value = ''@'', type = INVALID\<rparr>]"
  using tokenize_invalid_character [of "''3 @ 4''" "CHR ''@''"]
  by (simp add: accepted_char_def isdigit_def isOperator_def isspace_def)

section \<open>Examples of precedence and associativity\<close>

lemma evaluate_loop_append:
  "evaluate_loop lib (pre @ post) stk =
     (case evaluate_loop lib pre stk of Inl e \<Rightarrow> Inl e | Inr stk' \<Rightarrow> evaluate_loop lib post stk')"
  by (induction pre arbitrary: stk) (auto split: sum.splits list.splits)

lemma power_chain:
  "evaluate lib (parse (tokenize ''2 ^ 3 ^ 2'')) =
     Inr (pow lib (pow lib (double_of_int 2) (double_of_int 3)) (double_of_int 2))"
  by code_simp

lemma power_single:
  "evaluate lib (parse (tokenize ''2 ^ 3'')) = Inr (pow lib (double_of_int 2) (double_of_int 3))"
  by code_simp

lemma sum_product: "evaluate lib (parse (tokenize ''3 + 4 * 2'')) = Inr (double_of_int 11)"
  by code_simp

lemma grouped_sum_product: "evaluate lib (parse (tokenize ''(3 + 4) * 2'')) = Inr (double_of_int 14)"
  by code_simp

lemma power_chain_postfix:
  "parse (tokenize ''2 ^ 3 ^ 2'') =
     [\<lparr>value = ''2'', type = NUMBER\<rparr>, \<lparr>value = ''3'', type = NUMBER\<rparr>,
      \<lparr>value = ''^'', type = OPERATOR\<rparr>, \<lparr>value = ''2'', type = NUMBER\<rparr>,
      \<lparr>value = ''^'', type = OPERATOR\<rparr>]"
  by code_simp

text \<open>
  C1. The pipeline (tokenize, then parse, then evaluate) returns 11 for \<open>3 + 4 * 2\<close>,
  14 for \<open>(3 + 4) * 2\<close>, 8 for \<open>2 ^ 3\<close> and 64 for \<open>2 ^ 3 ^ 2\<close>, for every
  \<open>pow\<close> that is exact at \<open>2\<^sup>3\<close> and \<open>8\<^sup>2\<close>. The last value is
  \<open>pow (pow 2 3) 2\<close>, which is not 512: an operator on the stack whose precedence
  equals that of the incoming operator is popped, so that an operator meeting itself
  on the stack, \<open>^\<close> included, associates to the left.
\<close>

theorem precedence_examples:
  assumes "pow lib (double_of_int 2) (double_of_int 3) = double_of_int 8"
    and "pow lib (double_of_int 8) (double_of_int 2) = double_of_int 64"
  shows "evaluate lib (parse (tokenize ''3 + 4 * 2'')) = Inr (double_of_int 11)
    \<and> evaluate lib (parse (tokenize ''(3 + 4) * 2'')) = Inr (double_of_int 14)
    \<and> evaluate lib (parse (tokenize ''2 ^ 3'')) = Inr (double_of_int 8)
    \<and> evaluate lib (parse (tokenize ''2 ^ 3 ^ 2'')) = Inr (double_of_int 64)
    \<and> evaluate lib (parse (tokenize ''2 ^ 3 ^ 2'')) =
        Inr (pow lib (pow lib (double_of_int 2) (double_of_int 3)) (double_of_int 2))
    \<and> double_of_int 64 \<noteq> double_of_int 512
    \<and> parse (tokenize ''2 ^ 3 ^ 2'') =
        [\<lparr>value = ''2'', type = NUMBER\<rparr>, \<lparr>value = ''3'', type = NUMBER\<rparr>,
         \<lparr>value = ''^'', type = OPERATOR\<rparr>, \<lparr>value = ''2'', type = NUMBER\<rparr>,
         \<lparr>value = ''^'', type = OPERATOR\<rparr>]
    \<and> pop_by_precedence token (token # operatorStack) outputQueue =
        pop_by_precedence token operatorStack (outputQueue @ [token])"
proof -
  have a: "evaluate lib (parse (tokenize ''2 ^ 3 ^ 2'')) = Inr (double_of_int 64)"
    by (simp only: power_chain assms)
  have b: "evaluate lib (parse (tokenize ''2 ^ 3'')) = Inr (double_of_int 8)"
    by (simp only: power_single assms)
  have c: "double_of_int 64 \<noteq> double_of_int 512"
    by code_simp
  have d: "pop_by_precedence token (token # operatorStack) outputQueue =
      pop_by_precedence token operatorStack (outputQueue @ [token])"
    by simp
  from a b c d sum_product grouped_sum_product power_chain power_chain_postfix
  show ?thesis
    by blast
qed

theorem precedence_examples_witness:
  "pow sample_stdlib (double_of_int 2) (double_of_int 3) = double_of_int 8
   \<and> pow sample_stdlib (double_of_int 8) (double_of_int 2) = double_of_int 64
   \<and> evaluate sample_stdlib (parse (tokenize ''2 ^ 3'')) = Inr (double_of_int 8)
   \<and> evaluate sample_stdlib (parse (tokenize ''2 ^ 3 ^ 2'')) = Inr (double_of_int 64)"
proof -
  have h1: "pow sample_stdlib (double_of_int 2) (double_of_int 3) = double_of_int 8"
    by code_simp
  have h2: "pow sample_stdlib (double_of_int 8) (double_of_int 2) = double_of_int 64"
    by code_simp
  from precedence_examples [OF h1 h2] h1 h2 show ?thesis
    by blast
qed

section \<open>Unary minus and unary plus\<close>

lemma tokenize_loop_operator:
  assumes "extract_char iss = Some (c, rest)" and "isOperator c"
  shows "tokenize_loop iss mayBeUnary tokens =
     tokenize_loop rest True
       (if c = CHR ''-'' \<and> mayBeUnary then tokens @ [\<lparr>value = ''~'', type = OPERATOR\<rparr>]
        else if c = CHR ''+'' \<and> mayBeUnary then tokens
        else tokens @ [\<lparr>value = [c], type = OPERATOR\<rparr>])"
proof -
  from assms(2) have "\<not> (isdigit c \<or> c = CHR ''.'')"
    by (auto simp: isOperator_def isdigit_def)
  with assms show ?thesis
    by (subst tokenize_loop.simps) simp
qed

lemma minus_five_plus_three:
  "evaluate lib (parse (tokenize ''-5 + 3'')) = Inr (double_of_int (- 2))"
  by code_simp

lemma five_minus_minus_three:
  "evaluate lib (parse (tokenize ''5 - -3'')) = Inr (double_of_int 8)"
  by code_simp

text \<open>
  C3. When the tokenizer reads \<open>-\<close> while \<open>mayBeUnary\<close> is true it appends the
  operator token \<open>~\<close>, and when it reads \<open>+\<close> there it appends nothing; in both
  cases the flag stays true. The evaluator replaces the top of the stack by its negation
  at \<open>~\<close>. The pipeline returns -2 for \<open>-5 + 3\<close> and 8 for \<open>5 - -3\<close>.
\<close>

theorem unary_minus:
  "(extract_char iss = Some (CHR ''-'', rest) \<longrightarrow>
      tokenize_loop iss True tokens =
        tokenize_loop rest True (tokens @ [\<lparr>value = ''~'', type = OPERATOR\<rparr>]))
   \<and> (extract_char iss' = Some (CHR ''+'', rest') \<longrightarrow>
      tokenize_loop iss' True tokens = tokenize_loop rest' True tokens)
   \<and> evaluate_loop lib (\<lparr>value = ''~'', type = OPERATOR\<rparr> # parsedExpression) (operand # stack) =
      evaluate_loop lib parsedExpression (dneg operand # stack)
   \<and> evaluate lib (parse (tokenize ''-5 + 3'')) = Inr (double_of_int (- 2))
   \<and> evaluate lib (parse (tokenize ''5 - -3'')) = Inr (double_of_int 8)"
proof -
  have a: "extract_char iss = Some (CHR ''-'', rest) \<longrightarrow>
      tokenize_loop iss True tokens =
        tokenize_loop rest True (tokens @ [\<lparr>value = ''~'', type = OPERATOR\<rparr>])"
    by (simp add: tokenize_loop_operator isOperator_def)
  have b: "extract_char iss' = Some (CHR ''+'', rest') \<longrightarrow>
      tokenize_loop iss' True tokens = tokenize_loop rest' True tokens"
    by (simp add: tokenize_loop_operator isOperator_def)
  have c: "evaluate_loop lib (\<lparr>value = ''~'', type = OPERATOR\<rparr> # parsedExpression) (operand # stack) =
      evaluate_loop lib parsedExpression (dneg operand # stack)"
    by simp
  from a b c minus_five_plus_three five_minus_minus_three show ?thesis
    by blast
qed

theorem unary_minus_witness:
  "extract_char '' -5'' = Some (CHR ''-'', ''5'')
   \<and> tokenize_loop '' -5'' True [] = tokenize_loop ''5'' True [\<lparr>value = ''~'', type = OPERATOR\<rparr>]
   \<and> extract_char '' +5'' = Some (CHR ''+'', ''5'')
   \<and> tokenize_loop '' +5'' True [] = tokenize_loop ''5'' True []"
proof -
  have h1: "extract_char '' -5'' = Some (CHR ''-'', ''5'')"
    by code_simp
  have h2: "extract_char '' +5'' = Some (CHR ''+'', ''5'')"
    by code_simp
  from unary_minus [of "'' -5''" "''5''" "[]" "'' +5''" "''5''"] h1 h2 show ?thesis
    by simp
qed

section \<open>A number lexeme without digits\<close>

text \<open>
  C2. The input \<open>.\<close> is a single number token. \<^verbatim>\<open>std::stod\<close> cannot convert it
  and throws \<^verbatim>\<open>std::invalid_argument\<close>, which \<open>handleExpression\<close> does not
  catch: the outcome is neither a double nor one of the messages.
\<close>

theorem lone_point_uncaught:
  "tokenize ''.'' = [\<lparr>value = ''.'', type = NUMBER\<rparr>]
   \<and> evaluate lib (parse (tokenize ''.'')) = Inl invalid_argument
   \<and> handleExpression lib ''.'' = Uncaught invalid_argument"
  by code_simp

section \<open>Errors of the evaluator\<close>

lemma evaluate_loop_snoc:
  "evaluate_loop lib pre [] = Inr stk \<Longrightarrow>
   evaluate_loop lib (pre @ token # post) [] = evaluate_loop lib (token # post) stk"
  by (simp add: evaluate_loop_append)

lemma evaluate_loop_error:
  "evaluate_loop lib q [] = Inl e \<Longrightarrow> evaluate lib q = Inl e"
  by (simp add: evaluate_def)

lemma five_over_zero:
  "handleExpression lib ''5 / 0'' = Message ''Error: Attempted division/modulo by zero''"
  by code_simp

lemma five_modulo_zero:
  "handleExpression lib ''5 % 0'' = Message ''Error: Attempted division/modulo by zero''"
  by code_simp

text \<open>
  C6. If the evaluator comes to the operator \<open>/\<close> or \<open>%\<close> with at least two values
  on the stack and the top one, the right operand, equals \<open>0.0\<close>, the evaluation throws
  the runtime error of a division by zero, whatever follows in the queue: no value is
  returned. So do the inputs \<open>5 / 0\<close> and \<open>5 % 0\<close> in the pipeline.
\<close>

theorem division_by_zero:
  assumes "evaluate_loop lib pre [] = Inr (right # left # stack)"
    and "is_zero right"
    and "op = ''/'' \<or> op = ''%''"
  shows "evaluate lib (pre @ \<lparr>value = op, type = OPERATOR\<rparr> # post) =
      Inl (runtime_error ''Error: Attempted division/modulo by zero'')
    \<and> handleExpression lib ''5 / 0'' = Message ''Error: Attempted division/modulo by zero''
    \<and> handleExpression lib ''5 % 0'' = Message ''Error: Attempted division/modulo by zero''"
proof -
  from assms(3) have "op \<noteq> ''~''"
    by auto
  with assms have "evaluate_loop lib (pre @ \<lparr>value = op, type = OPERATOR\<rparr> # post) [] =
      Inl (runtime_error ''Error: Attempted division/modulo by zero'')"
    by (simp add: evaluate_loop_snoc)
  then have "evaluate lib (pre @ \<lparr>value = op, type = OPERATOR\<rparr> # post) =
      Inl (runtime_error ''Error: Attempted division/modulo by zero'')"
    by (rule evaluate_loop_error)
  with five_over_zero five_modulo_zero show ?thesis
    by blast
qed

theorem division_by_zero_witness:
  "evaluate_loop sample_stdlib [\<lparr>value = ''5'', type = NUMBER\<rparr>, \<lparr>value = ''0'', type = NUMBER\<rparr>] [] =
      Inr [double_of_int 0, double_of_int 5]
   \<and> is_zero (double_of_int 0)
   \<and> evaluate sample_stdlib
        [\<lparr>value = ''5'', type = NUMBER\<rparr>, \<lparr>value = ''0'', type = NUMBER\<rparr>,
         \<lparr>value = ''%'', type = OPERATOR\<rparr>] =
      Inl (runtime_error ''Error: Attempted division/modulo by zero'')"
proof -
  have h1: "evaluate_loop sample_stdlib
      [\<lparr>value = ''5'', type = NUMBER\<rparr>, \<lparr>value = ''0'', type = NUMBER\<rparr>] [] =
      Inr [double_of_int 0, double_of_int 5]"
    by code_simp
  have h2: "is_zero (double_of_int 0)"
    by code_simp
  have h3: "''%'' = ''/'' \<or> ''%'' = ''%''"
    by simp
  from division_by_zero [OF h1 h2 h3, of "[]"] h1 h2 show ?thesis
    by simp
qed

text \<open>
  C7. The operator \<open>~\<close> on an empty stack throws the runtime error of insufficient
  operands for the unary operator. Any other operator on a stack of fewer than two
  values throws the runtime error of insufficient operands that carries its lexeme.
  With two values on the stack, the one popped first is the right operand and the one
  popped second the left operand: \<open>5 3 -\<close> is \<open>5 - 3\<close>.
\<close>

theorem insufficient_operands:
  "(evaluate_loop lib pre [] = Inr [] \<longrightarrow>
      evaluate lib (pre @ \<lparr>value = ''~'', type = OPERATOR\<rparr> # post) =
        Inl (runtime_error ''Error: Insufficient operands for unary operator''))
   \<and> (evaluate_loop lib pre' [] = Inr stack \<and> length stack < 2 \<and> op \<noteq> ''~'' \<longrightarrow>
      evaluate lib (pre' @ \<lparr>value = op, type = OPERATOR\<rparr> # post') =
        Inl (runtime_error (''Error: Insufficient operands for operator '' @ apostrophe @ op
          @ apostrophe)))
   \<and> (evaluate_loop lib pre'' [] = Inr (right # left # stack')
        \<and> op' \<noteq> ''~'' \<and> \<not> ((op' = ''/'' \<or> op' = ''%'') \<and> is_zero right) \<longrightarrow>
      evaluate_loop lib (pre'' @ [\<lparr>value = op', type = OPERATOR\<rparr>]) [] =
        (case applyOperator lib left right op' of
           Inl e \<Rightarrow> Inl e
         | Inr result \<Rightarrow> Inr (result # stack')))
   \<and> applyOperator lib left right ''-'' = Inr (dsub left right)
   \<and> evaluate lib
        [\<lparr>value = ''5'', type = NUMBER\<rparr>, \<lparr>value = ''3'', type = NUMBER\<rparr>,
         \<lparr>value = ''-'', type = OPERATOR\<rparr>] = Inr (double_of_int 2)"
proof -
  have a: "evaluate_loop lib pre [] = Inr [] \<longrightarrow>
      evaluate lib (pre @ \<lparr>value = ''~'', type = OPERATOR\<rparr> # post) =
        Inl (runtime_error ''Error: Insufficient operands for unary operator'')"
    by (simp add: evaluate_loop_snoc evaluate_loop_error)
  have b: "evaluate_loop lib pre' [] = Inr stack \<and> length stack < 2 \<and> op \<noteq> ''~'' \<longrightarrow>
      evaluate lib (pre' @ \<lparr>value = op, type = OPERATOR\<rparr> # post') =
        Inl (runtime_error (''Error: Insufficient operands for operator '' @ apostrophe @ op
          @ apostrophe))"
  proof (intro impI, elim conjE)
    assume h: "evaluate_loop lib pre' [] = Inr stack" "length stack < 2" "op \<noteq> ''~''"
    from h(2) consider "stack = []" | x where "stack = [x]"
      by (cases stack rule: list.exhaust [case_product list.exhaust]) (auto simp: Suc_lessI length_Suc_conv)
    then have "evaluate_loop lib (\<lparr>value = op, type = OPERATOR\<rparr> # post') stack =
        Inl (runtime_error (''Error: Insufficient operands for operator '' @ apostrophe @ op
          @ apostrophe))"
      using h(3) by cases simp_all
    with h(1) show "evaluate lib (pre' @ \<lparr>value = op, type = OPERATOR\<rparr> # post') =
        Inl (runtime_error (''Error: Insufficient operands for operator '' @ apostrophe @ op
          @ apostrophe))"
      by (simp add: evaluate_loop_snoc evaluate_loop_error)
  qed
  have c: "evaluate_loop lib pre'' [] = Inr (right # left # stack')
        \<and> op' \<noteq> ''~'' \<and> \<not> ((op' = ''/'' \<or> op' = ''%'') \<and> is_zero right) \<longrightarrow>
      evaluate_loop lib (pre'' @ [\<lparr>value = op', type = OPERATOR\<rparr>]) [] =
        (case applyOperator lib left right op' of
           Inl e \<Rightarrow> Inl e
         | Inr result \<Rightarrow> Inr (result # stack'))"
    by (auto simp: evaluate_loop_snoc split: sum.splits)
  have d: "applyOperator lib left right ''-'' = Inr (dsub left right)"
    by (simp add: applyOperator_def)
  have e: "evaluate lib
        [\<lparr>value = ''5'', type = NUMBER\<rparr>, \<lparr>value = ''3'', type = NUMBER\<rparr>,
         \<lparr>value = ''-'', type = OPERATOR\<rparr>] = Inr (double_of_int 2)"
    by code_simp
  from a b c d e show ?thesis
    by blast
qed

theorem insufficient_operands_witness:
  "evaluate_loop sample_stdlib [] [] = Inr []
   \<and> evaluate sample_stdlib [\<lparr>value = ''~'', type = OPERATOR\<rparr>] =
       Inl (runtime_error ''Error: Insufficient operands for unary operator'')
   \<and> evaluate_loop sample_stdlib [\<lparr>value = ''5'', type = NUMBER\<rparr>] [] = Inr [double_of_int 5]
   \<and> evaluate sample_stdlib [\<lparr>value = ''5'', type = NUMBER\<rparr>, \<lparr>value = ''+'', type = OPERATOR\<rparr>] =
       Inl (runtime_error (''Error: Insufficient operands for operator '' @ apostrophe @ ''+''
         @ apostrophe))
   \<and> evaluate_loop sample_stdlib
        [\<lparr>value = ''5'', type = NUMBER\<rparr>, \<lparr>value = ''3'', type = NUMBER\<rparr>] [] =
       Inr [double_of_int 3, double_of_int 5]
   \<and> evaluate_loop sample_stdlib
        [\<lparr>value = ''5'', type = NUMBER\<rparr>, \<lparr>value = ''3'', type = NUMBER\<rparr>,
         \<lparr>value = ''-'', type = OPERATOR\<rparr>] [] =
       Inr [dsub (double_of_int 5) (double_of_int 3)]"
proof -
  have h1: "evaluate_loop sample_stdlib [] [] = Inr []"
    by simp
  have h2: "evaluate_loop sample_stdlib [\<lparr>value = ''5'', type = NUMBER\<rparr>] [] = Inr [double_of_int 5]"
    by code_simp
  have h3: "evaluate_loop sample_stdlib
        [\<lparr>value = ''5'', type = NUMBER\<rparr>, \<lparr>value = ''3'', type = NUMBER\<rparr>] [] =
       Inr [double_of_int 3, double_of_int 5]"
    by code_simp
  have h4: "\<not> is_zero (double_of_int 3)"
    by code_simp
  from insufficient_operands [of sample_stdlib "[]" "[]"
      "[\<lparr>value = ''5'', type = NUMBER\<rparr>]" "[double_of_int 5]" "''+''" "[]"
      "[\<lparr>value = ''5'', type = NUMBER\<rparr>, \<lparr>value = ''3'', type = NUMBER\<rparr>]"
      "double_of_int 3" "double_of_int 5" "[]" "''-''"]
    h1 h2 h3 h4
  show ?thesis
    by (simp add: applyOperator_def)
qed

lemma three_four:
  "tokenize ''3 4'' = [\<lparr>value = ''3'', type = NUMBER\<rparr>, \<lparr>value = ''4'', type = NUMBER\<rparr>]
   \<and> evaluate lib (parse (tokenize ''3 4'')) = Inl (runtime_error ''Error: Invalid expression format'')
   \<and> handleExpression lib ''3 4'' = Message ''Error: Invalid expression format''"
  by code_simp

text \<open>
  C8. When the loop of the evaluator ends without an exception, \<open>evaluate\<close> returns
  the value on the stack if there is exactly one, and throws the runtime error of an
  invalid expression format if the stack is empty or holds two or more values, as for
  the tokens of \<open>3 4\<close>.
\<close>

theorem final_stack_check:
  "(evaluate_loop lib parsedExpression [] = Inr [result] \<longrightarrow>
      evaluate lib parsedExpression = Inr result)
   \<and> (evaluate_loop lib parsedExpression' [] = Inr stack \<and> length stack \<noteq> 1 \<longrightarrow>
      evaluate lib parsedExpression' = Inl (runtime_error ''Error: Invalid expression format''))
   \<and> tokenize ''3 4'' = [\<lparr>value = ''3'', type = NUMBER\<rparr>, \<lparr>value = ''4'', type = NUMBER\<rparr>]
   \<and> evaluate lib (parse (tokenize ''3 4'')) = Inl (runtime_error ''Error: Invalid expression format'')
   \<and> handleExpression lib ''3 4'' = Message ''Error: Invalid expression format''"
proof -
  have a: "evaluate_loop lib parsedExpression [] = Inr [result] \<longrightarrow>
      evaluate lib parsedExpression = Inr result"
    by (simp add: evaluate_def)
  have b: "evaluate_loop lib parsedExpression' [] = Inr stack \<and> length stack \<noteq> 1 \<longrightarrow>
      evaluate lib parsedExpression' = Inl (runtime_error ''Error: Invalid expression format'')"
    by (simp add: evaluate_def)
  from a b three_four [of lib] show ?thesis
    by blast
qed

theorem final_stack_check_witness:
  "evaluate_loop sample_stdlib [\<lparr>value = ''7'', type = NUMBER\<rparr>] [] = Inr [double_of_int 7]
   \<and> evaluate sample_stdlib [\<lparr>value = ''7'', type = NUMBER\<rparr>] = Inr (double_of_int 7)
   \<and> evaluate_loop sample_stdlib [] [] = Inr []
   \<and> length ([] :: double list) \<noteq> 1
   \<and> evaluate sample_stdlib [] = Inl (runtime_error ''Error: Invalid expression format'')"
proof -
  have h1: "evaluate_loop sample_stdlib [\<lparr>value = ''7'', type = NUMBER\<rparr>] [] = Inr [double_of_int 7]"
    by code_simp
  have h2: "evaluate_loop sample_stdlib [] [] = Inr []"
    by simp
  from final_stack_check [of sample_stdlib "[\<lparr>value = ''7'', type = NUMBER\<rparr>]" "double_of_int 7"
      "[]" "[]"] h1 h2
  show ?thesis
    by simp
qed

section \<open>Failures of the converter\<close>

lemma pop_by_precedence_eq:
  "pop_by_precedence token st out =
     (dropWhile (\<lambda>t. precedence_at (value t) \<ge> precedence_at (value token)) st,
      out @ takeWhile (\<lambda>t. precedence_at (value t) \<ge> precedence_at (value token)) st)"
  by (induction st arbitrary: out) simp_all

lemma pop_to_open_eq:
  "pop_to_open st out =
     (dropWhile (\<lambda>t. value t \<noteq> ''('') st, out @ takeWhile (\<lambda>t. value t \<noteq> ''('') st)"
  by (induction st arbitrary: out) simp_all

lemma pop_remaining_eq:
  "pop_remaining st out =
     (if list_ex (\<lambda>t. type t = PARENTHESIS) st then Inl Unmatched_opening else Inr (out @ st))"
  by (induction st arbitrary: out) simp_all

lemma parse_loop_append:
  "parse_loop (pre @ post) st out =
     (case parse_loop pre st out of
        Inl r \<Rightarrow> Inl r
      | Inr (st', out') \<Rightarrow> parse_loop post st' out')"
  by (induction pre arbitrary: st out) (simp_all split: prod.splits list.splits)

lemma parse_loop_single_fails:
  "isl (parse_loop [t] st out) \<longleftrightarrow>
     type t = INVALID \<or>
     (type t = PARENTHESIS \<and> value t \<noteq> ''('' \<and> list_all (\<lambda>s. value s \<noteq> ''('') st)"
proof (cases "type t")
  case PARENTHESIS
  show ?thesis
  proof (cases "value t = ''(''")
    case True
    with PARENTHESIS show ?thesis by simp
  next
    case False
    show ?thesis
    proof (cases "dropWhile (\<lambda>s. value s \<noteq> ''('') st")
      case Nil
      then have "list_all (\<lambda>s. value s \<noteq> ''('') st"
        by (simp add: list_all_iff)
      with PARENTHESIS False show ?thesis
        by (simp add: pop_to_open_eq Nil)
    next
      case (Cons a rest)
      then have "value a = ''(''" and "a \<in> set st"
        using dropWhile_eq_Cons_conv [of "\<lambda>s. value s \<noteq> ''(''" st a rest]
        by (simp, metis in_set_conv_decomp)
      then have "\<not> list_all (\<lambda>s. value s \<noteq> ''('') st"
        by (auto simp: list_all_iff)
      with PARENTHESIS False \<open>value a = ''(''\<close> show ?thesis
        by (simp add: pop_to_open_eq Cons)
    qed
  qed
qed (simp_all add: pop_by_precedence_eq)

lemma parse_loop_fails_snoc:
  "isl (parse_loop (ts @ [t]) [] []) \<longleftrightarrow>
     isl (parse_loop ts [] []) \<or>
     (\<exists>st out. parse_loop ts [] [] = Inr (st, out) \<and>
        (type t = INVALID \<or>
         (type t = PARENTHESIS \<and> value t \<noteq> ''('' \<and> list_all (\<lambda>s. value s \<noteq> ''('') st)))"
proof (cases "parse_loop ts [] []")
  case (Inl r)
  then show ?thesis by (simp add: parse_loop_append)
next
  case (Inr p)
  obtain st out where "p = (st, out)" by (cases p)
  with Inr show ?thesis
    using parse_loop_single_fails [of t st out] by (simp add: parse_loop_append)
qed

lemma closing_unmatched_at_snoc:
  "i < length ts \<Longrightarrow> closing_unmatched_at (ts @ [t]) i = closing_unmatched_at ts i"
proof -
  assume "i < length ts"
  then have "(ts @ [t]) ! i = ts ! i"
    by (simp add: nth_append)
  with \<open>i < length ts\<close> show ?thesis
    by (simp add: closing_unmatched_at_def split: sum.splits prod.splits)
qed

lemma closing_unmatched_snoc:
  "closing_unmatched (ts @ [t]) \<longleftrightarrow>
     closing_unmatched ts \<or> closing_unmatched_at (ts @ [t]) (length ts)"
  by (auto simp: closing_unmatched_def list_ex_iff closing_unmatched_at_snoc less_Suc_eq)

lemma invalid_fails:
  "has_invalid ts \<Longrightarrow> isl (parse_loop ts st out)"
  unfolding has_invalid_def
  by (induction ts arbitrary: st out) (auto split: prod.splits list.splits)

lemma parse_loop_fails_iff:
  "isl (parse_loop ts [] []) \<longleftrightarrow> has_invalid ts \<or> closing_unmatched ts"
proof (induction ts rule: rev_induct)
  case Nil
  show ?case by (simp add: has_invalid_def closing_unmatched_def)
next
  case (snoc t ts)
  show ?case
  proof (cases "parse_loop ts [] []")
    case (Inl r)
    with snoc show ?thesis
      by (auto simp: parse_loop_fails_snoc closing_unmatched_snoc has_invalid_def)
  next
    case (Inr p)
    obtain st out where p: "p = (st, out)" by (cases p)
    from Inr snoc have no: "\<not> has_invalid ts" "\<not> closing_unmatched ts"
      by auto
    from Inr p have "closing_unmatched_at (ts @ [t]) (length ts) \<longleftrightarrow>
        type t = PARENTHESIS \<and> value t \<noteq> ''('' \<and> list_all (\<lambda>s. value s \<noteq> ''('') st"
      by (simp add: closing_unmatched_at_def)
    moreover from no have "has_invalid (ts @ [t]) \<longleftrightarrow> type t = INVALID"
      by (simp add: has_invalid_def)
    ultimately show ?thesis
      using Inr p no by (simp add: parse_loop_fails_snoc closing_unmatched_snoc)
  qed
qed

lemma parse_run_fails_iff:
  "isl (parse_run ts) \<longleftrightarrow> has_invalid ts \<or> closing_unmatched ts \<or> opening_unmatched ts"
proof (cases "parse_loop ts [] []")
  case (Inl r)
  then have "isl (parse_run ts)" "\<not> opening_unmatched ts"
    by (simp_all add: parse_run_def opening_unmatched_def)
  moreover from Inl have "has_invalid ts \<or> closing_unmatched ts"
    using parse_loop_fails_iff [of ts] by simp
  ultimately show ?thesis by blast
next
  case (Inr p)
  obtain st out where p: "p = (st, out)" by (cases p)
  from Inr have "\<not> (has_invalid ts \<or> closing_unmatched ts)"
    using parse_loop_fails_iff [of ts] by simp
  moreover from Inr p have "isl (parse_run ts) \<longleftrightarrow> opening_unmatched ts"
    by (simp add: parse_run_def opening_unmatched_def pop_remaining_eq)
  ultimately show ?thesis by blast
qed

lemma parse_run_fails_empty: "isl (parse_run ts) \<Longrightarrow> parse ts = []"
  by (cases "parse_run ts") (simp_all add: parse_def)

lemma open_unclosed:
  "opening_unmatched (tokenize ''(3 + 4'') \<and> parse (tokenize ''(3 + 4'') = []
   \<and> handleExpression lib ''(3 + 4'' = Message ''Error, Invalid expression''"
  by code_simp

lemma close_unopened:
  "closing_unmatched (tokenize ''3 + 4)'') \<and> parse (tokenize ''3 + 4)'') = []
   \<and> handleExpression lib ''3 + 4)'' = Message ''Error, Invalid expression''"
  by code_simp

section \<open>Steps of the tokenizer\<close>

lemma tokenize_loop_eof:
  "extract_char iss = None \<Longrightarrow> tokenize_loop iss mayBeUnary tokens = tokens"
  by (subst tokenize_loop.simps) simp

lemma tokenize_loop_number:
  assumes "extract_char iss = Some (c, rest)" and "number_char c"
  shows "tokenize_loop iss mayBeUnary tokens =
     tokenize_loop (dropWhile number_char rest) False
       (tokens @ [\<lparr>value = c # takeWhile number_char rest, type = NUMBER\<rparr>])"
  using assms by (subst tokenize_loop.simps) (simp add: read_number_eq number_char_def)

lemma tokenize_loop_parenthesis:
  assumes "extract_char iss = Some (c, rest)" and "c = CHR ''('' \<or> c = CHR '')''"
  shows "tokenize_loop iss mayBeUnary tokens =
     tokenize_loop rest (c = CHR ''('') (tokens @ [\<lparr>value = [c], type = PARENTHESIS\<rparr>])"
proof -
  from assms(2) have "\<not> (isdigit c \<or> c = CHR ''.'')" "\<not> isOperator c"
    by (auto simp: isOperator_def isdigit_def)
  with assms show ?thesis
    by (subst tokenize_loop.simps) simp
qed

lemma tokenize_loop_foreign:
  assumes "extract_char iss = Some (c, rest)" and "\<not> accepted_char c"
  shows "tokenize_loop iss mayBeUnary tokens = [\<lparr>value = [c], type = INVALID\<rparr>]"
  using assms by (subst tokenize_loop.simps) (simp add: accepted_char_def)

lemma tokenize_loop_induct [case_names eof number operator parenthesis foreign]:
  assumes "\<And>iss mayBeUnary tokens. extract_char iss = None \<Longrightarrow> P iss mayBeUnary tokens"
    and "\<And>iss mayBeUnary tokens c rest.
      extract_char iss = Some (c, rest) \<Longrightarrow> number_char c \<Longrightarrow>
      P (dropWhile number_char rest) False
        (tokens @ [\<lparr>value = c # takeWhile number_char rest, type = NUMBER\<rparr>]) \<Longrightarrow>
      P iss mayBeUnary tokens"
    and "\<And>iss mayBeUnary tokens c rest.
      extract_char iss = Some (c, rest) \<Longrightarrow> isOperator c \<Longrightarrow>
      P rest True
        (if c = CHR ''-'' \<and> mayBeUnary then tokens @ [\<lparr>value = ''~'', type = OPERATOR\<rparr>]
         else if c = CHR ''+'' \<and> mayBeUnary then tokens
         else tokens @ [\<lparr>value = [c], type = OPERATOR\<rparr>]) \<Longrightarrow>
      P iss mayBeUnary tokens"
    and "\<And>iss mayBeUnary tokens c rest.
      extract_char iss = Some (c, rest) \<Longrightarrow> c = CHR ''('' \<or> c = CHR '')'' \<Longrightarrow>
      P rest (c = CHR ''('') (tokens @ [\<lparr>value = [c], type = PARENTHESIS\<rparr>]) \<Longrightarrow>
      P iss mayBeUnary tokens"
    and "\<And>iss mayBeUnary tokens c rest.
      extract_char iss = Some (c, rest) \<Longrightarrow> \<not> accepted_char c \<Longrightarrow> P iss mayBeUnary tokens"
  shows "P iss mayBeUnary tokens"
proof (induction iss mayBeUnary tokens rule: tokenize_loop.induct)
  case (1 iss mayBeUnary tokens)
  show ?case
  proof (cases "extract_char iss")
    case None
    then show ?thesis by (rule assms(1))
  next
    case (Some p)
    obtain c rest where p: "p = (c, rest)" by (cases p)
    with Some have ex: "extract_char iss = Some (c, rest)" by simp
    then have ns: "\<not> isspace c"
      by (simp add: extract_char_Some)
    consider (num) "isdigit c \<or> c = CHR ''.''"
      | (op) "\<not> (isdigit c \<or> c = CHR ''.'')" "isOperator c"
      | (par) "\<not> (isdigit c \<or> c = CHR ''.'')" "\<not> isOperator c" "c = CHR ''('' \<or> c = CHR '')''"
      | (inv) "\<not> (isdigit c \<or> c = CHR ''.'')" "\<not> isOperator c" "\<not> (c = CHR ''('' \<or> c = CHR '')'')"
      by blast
    then show ?thesis
    proof cases
      case num
      have rn: "read_number [c] rest = (c # takeWhile number_char rest, dropWhile number_char rest)"
        by (simp add: read_number_eq)
      from num have "number_char c"
        by (simp add: number_char_def)
      with ex show ?thesis
        using "1.IH"(1) [OF Some p [symmetric] num rn [symmetric]] by (rule assms(2))
    next
      case op
      from ex op(2) "1.IH"(2) [OF Some p [symmetric] op] show ?thesis
        by (rule assms(3))
    next
      case par
      from ex par(3) "1.IH"(3) [OF Some p [symmetric] par] show ?thesis
        by (rule assms(4))
    next
      case inv
      with ns have "\<not> accepted_char c"
        by (simp add: accepted_char_def)
      with ex show ?thesis
        by (rule assms(5))
    qed
  qed
qed

lemma precedence_operator_char: "isOperator c \<Longrightarrow> precedence [c] \<noteq> None"
  by (auto simp: isOperator_def precedence_def)

lemma precedence_tilde: "precedence ''~'' \<noteq> None"
  by (simp add: precedence_def)

lemma precedence_at_least_one: "precedence key \<noteq> None \<Longrightarrow> 1 \<le> precedence_at key"
  by (auto simp: precedence_at_def precedence_def split: if_splits)

lemma precedence_at_open: "precedence_at ''('' = 0"
  by (simp add: precedence_at_def precedence_def)

lemma tokenize_loop_operators_in_table:
  "operators_in_table tokens \<Longrightarrow> operators_in_table (tokenize_loop iss mayBeUnary tokens)"
proof (induction iss mayBeUnary tokens rule: tokenize_loop_induct)
  case (eof iss mayBeUnary tokens)
  then show ?case by (simp add: tokenize_loop_eof)
next
  case (number iss mayBeUnary tokens c rest)
  then show ?case
    by (simp add: tokenize_loop_number operators_in_table_def)
next
  case (operator iss mayBeUnary tokens c rest)
  have "operators_in_table
      (if c = CHR ''-'' \<and> mayBeUnary then tokens @ [\<lparr>value = ''~'', type = OPERATOR\<rparr>]
       else if c = CHR ''+'' \<and> mayBeUnary then tokens
       else tokens @ [\<lparr>value = [c], type = OPERATOR\<rparr>])"
    using operator(4) precedence_operator_char [OF operator(2)] precedence_tilde
    by (simp add: operators_in_table_def)
  then show ?case
    by (subst tokenize_loop_operator [OF operator(1,2)]) (rule operator(3))
next
  case (parenthesis iss mayBeUnary tokens c rest)
  then show ?case
    by (simp add: tokenize_loop_parenthesis operators_in_table_def)
next
  case (foreign iss mayBeUnary tokens c rest)
  then show ?case
    by (simp add: tokenize_loop_foreign operators_in_table_def)
qed

lemma tokenize_operators_in_table: "operators_in_table (tokenize expression)"
  unfolding tokenize_def by (rule tokenize_loop_operators_in_table) (simp add: operators_in_table_def)

section \<open>Parentheses on the operator stack\<close>

lemma pop_by_precedence_keeps_open:
  assumes "precedence (value token) \<noteq> None"
  shows "\<exists>popped.
      operatorStack = popped @ fst (pop_by_precedence token operatorStack outputQueue)
      \<and> snd (pop_by_precedence token operatorStack outputQueue) = outputQueue @ popped
      \<and> list_all (\<lambda>t. value t \<noteq> ''('') popped"
proof -
  let ?P = "\<lambda>t. precedence_at (value t) \<ge> precedence_at (value token)"
  from assms have one: "1 \<le> precedence_at (value token)"
    by (rule precedence_at_least_one)
  have "list_all (\<lambda>t. value t \<noteq> ''('') (takeWhile ?P operatorStack)"
  proof -
    have "value t \<noteq> ''(''" if "t \<in> set (takeWhile ?P operatorStack)" for t
    proof
      assume "value t = ''(''"
      moreover from that have "?P t"
        by (rule set_takeWhileD [THEN conjunct2])
      ultimately show False
        using one by (simp add: precedence_at_open)
    qed
    then show ?thesis
      by (simp add: list_all_iff)
  qed
  then show ?thesis
    by (intro exI [of _ "takeWhile ?P operatorStack"]) (simp add: pop_by_precedence_eq)
qed

lemma parse_loop_no_parenthesis:
  assumes "operators_in_table tokens"
    and "\<forall>t\<in>set st. (type t = OPERATOR \<and> precedence (value t) \<noteq> None)
           \<or> (type t = PARENTHESIS \<and> value t = ''('')"
    and "\<forall>t\<in>set out. type t \<noteq> PARENTHESIS"
    and "parse_loop tokens st out = Inr (st', out')"
  shows "(\<forall>t\<in>set st'. (type t = OPERATOR \<and> precedence (value t) \<noteq> None)
           \<or> (type t = PARENTHESIS \<and> value t = ''(''))
    \<and> (\<forall>t\<in>set out'. type t \<noteq> PARENTHESIS)"
  using assms
proof (induction tokens arbitrary: st out)
  case Nil
  then show ?case by simp
next
  case (Cons token tokens)
  let ?S = "\<lambda>t. (type t = OPERATOR \<and> precedence (value t) \<noteq> None)
           \<or> (type t = PARENTHESIS \<and> value t = ''('')"
  from Cons.prems(1) have tab: "operators_in_table tokens"
    and tok: "type token = OPERATOR \<longrightarrow> precedence (value token) \<noteq> None"
    by (simp_all add: operators_in_table_def)
  note IH = Cons.IH [OF tab]
  show ?case
  proof (cases "type token")
    case INVALID
    with Cons.prems(4) show ?thesis by simp
  next
    case NUMBER
    with Cons.prems have "parse_loop tokens st (out @ [token]) = Inr (st', out')"
      and "\<forall>t\<in>set (out @ [token]). type t \<noteq> PARENTHESIS"
      by simp_all
    with Cons.prems(2) show ?thesis
      by (intro IH) simp_all
  next
    case OPERATOR
    let ?P = "\<lambda>t. precedence_at (value t) \<ge> precedence_at (value token)"
    from OPERATOR tok have one: "1 \<le> precedence_at (value token)"
      by (simp add: precedence_at_least_one)
    from OPERATOR Cons.prems(4)
    have run: "parse_loop tokens (token # dropWhile ?P st) (out @ takeWhile ?P st) = Inr (st', out')"
      by (simp add: pop_by_precedence_eq)
    have "?S t" if "t \<in> set (token # dropWhile ?P st)" for t
      using that OPERATOR tok Cons.prems(2) by (auto dest: set_dropWhileD)
    moreover have "type t \<noteq> PARENTHESIS" if "t \<in> set (out @ takeWhile ?P st)" for t
    proof (cases "t \<in> set out")
      case True
      with Cons.prems(3) show ?thesis by simp
    next
      case False
      with that have "t \<in> set st" and "?P t"
        by (auto dest: set_takeWhileD)
      with one Cons.prems(2) show ?thesis
        by (auto simp: precedence_at_open)
    qed
    ultimately show ?thesis
      using run by (intro IH) blast+
  next
    case PARENTHESIS
    show ?thesis
    proof (cases "value token = ''(''")
      case True
      with PARENTHESIS Cons.prems(4) have "parse_loop tokens (token # st) out = Inr (st', out')"
        by simp
      moreover from True PARENTHESIS Cons.prems(2) have "\<forall>t\<in>set (token # st). ?S t"
        by simp
      ultimately show ?thesis
        using Cons.prems(3) by (intro IH)
    next
      case False
      let ?Q = "\<lambda>t. value t \<noteq> ''(''"
      from False PARENTHESIS Cons.prems(4) obtain stackTop rest
        where dw: "dropWhile ?Q st = stackTop # rest"
          and run: "parse_loop tokens rest (out @ takeWhile ?Q st) = Inr (st', out')"
        by (auto simp: pop_to_open_eq split: list.splits if_splits)
      have "set rest \<subseteq> set st"
        using set_dropWhileD [of _ ?Q st] dw by auto
      with Cons.prems(2) have "\<forall>t\<in>set rest. ?S t"
        by blast
      moreover have "type t \<noteq> PARENTHESIS" if "t \<in> set (out @ takeWhile ?Q st)" for t
      proof (cases "t \<in> set out")
        case True
        with Cons.prems(3) show ?thesis by simp
      next
        case False
        with that have "t \<in> set (takeWhile ?Q st)"
          by simp
        then have "t \<in> set st" and "?Q t"
          by (auto dest: set_takeWhileD)
        with Cons.prems(2) show ?thesis
          by auto
      qed
      ultimately show ?thesis
        using run by (intro IH) blast+
    qed
  qed
qed

lemma parse_no_parenthesis:
  assumes "operators_in_table tokens"
  shows "list_all (\<lambda>t. type t \<noteq> PARENTHESIS) (parse tokens)"
proof (cases "parse_loop tokens [] []")
  case (Inl r)
  then show ?thesis
    by (simp add: parse_def parse_run_def)
next
  case (Inr p)
  obtain st out where p: "p = (st, out)" by (cases p)
  with Inr have run: "parse_loop tokens [] [] = Inr (st, out)" by simp
  from parse_loop_no_parenthesis [OF assms _ _ run]
  have out: "\<forall>t\<in>set out. type t \<noteq> PARENTHESIS"
    by simp
  show ?thesis
  proof (cases "list_ex (\<lambda>t. type t = PARENTHESIS) st")
    case True
    with run show ?thesis
      by (simp add: parse_def parse_run_def pop_remaining_eq)
  next
    case False
    with run out show ?thesis
      by (auto simp: parse_def parse_run_def pop_remaining_eq list_all_iff list_ex_iff)
  qed
qed

text \<open>
  C10, amended. If the incoming operator is in the precedence table, the tokens that
  the precedence loop moves from the operator stack to the output are a part of the
  stack above its topmost \<open>(\<close>: none of them has the lexeme \<open>(\<close>, whose precedence
  is 0, below the least precedence 1 of the table; the stack from that \<open>(\<close> downwards
  is left as it is. For a token sequence whose operators are all in the table, no
  parenthesis token is in the output of the converter. Every sequence that
  \<open>tokenize\<close> returns is such a sequence.
\<close>

theorem open_parenthesis_not_popped:
  "(precedence (value token) \<noteq> None \<longrightarrow>
      (\<exists>popped.
         operatorStack = popped @ fst (pop_by_precedence token operatorStack outputQueue)
         \<and> snd (pop_by_precedence token operatorStack outputQueue) = outputQueue @ popped
         \<and> list_all (\<lambda>t. value t \<noteq> ''('') popped))
   \<and> (operators_in_table tokens \<longrightarrow> list_all (\<lambda>t. type t \<noteq> PARENTHESIS) (parse tokens))
   \<and> operators_in_table (tokenize expression)
   \<and> precedence_at ''('' = 0
   \<and> (precedence key \<noteq> None \<longrightarrow> 1 \<le> precedence_at key)"
  using pop_by_precedence_keeps_open [of token operatorStack outputQueue]
    parse_no_parenthesis [of tokens] tokenize_operators_in_table [of expression]
    precedence_at_open precedence_at_least_one [of key]
  by blast

theorem open_parenthesis_not_popped_witness:
  "precedence ''+'' \<noteq> None
   \<and> pop_by_precedence \<lparr>value = ''+'', type = OPERATOR\<rparr>
        [\<lparr>value = ''*'', type = OPERATOR\<rparr>, \<lparr>value = ''('', type = PARENTHESIS\<rparr>]
        [\<lparr>value = ''3'', type = NUMBER\<rparr>] =
       ([\<lparr>value = ''('', type = PARENTHESIS\<rparr>],
        [\<lparr>value = ''3'', type = NUMBER\<rparr>, \<lparr>value = ''*'', type = OPERATOR\<rparr>])
   \<and> operators_in_table (tokenize ''(3 * 4 + 5)'')
   \<and> list_all (\<lambda>t. type t \<noteq> PARENTHESIS) (parse (tokenize ''(3 * 4 + 5)''))
   \<and> 1 \<le> precedence_at ''+''"
proof -
  have h1: "precedence ''+'' \<noteq> None"
    by (simp add: precedence_def)
  have h2: "pop_by_precedence \<lparr>value = ''+'', type = OPERATOR\<rparr>
        [\<lparr>value = ''*'', type = OPERATOR\<rparr>, \<lparr>value = ''('', type = PARENTHESIS\<rparr>]
        [\<lparr>value = ''3'', type = NUMBER\<rparr>] =
       ([\<lparr>value = ''('', type = PARENTHESIS\<rparr>],
        [\<lparr>value = ''3'', type = NUMBER\<rparr>, \<lparr>value = ''*'', type = OPERATOR\<rparr>])"
    by code_simp
  from open_parenthesis_not_popped [of "\<lparr>value = ''+'', type = OPERATOR\<rparr>" _ _
      "tokenize ''(3 * 4 + 5)''" "''(3 * 4 + 5)''" "''+''"] h1 h2
  show ?thesis
    by simp
qed

text \<open>
  C10 as stated, for every token sequence, fails for an operator token whose lexeme is
  not in the table: its precedence is 0 as well, and the precedence loop pops the
  \<open>(\<close> to the output.
\<close>

theorem open_parenthesis_popped_counterexample:
  "pop_by_precedence \<lparr>value = ''x'', type = OPERATOR\<rparr> [\<lparr>value = ''('', type = PARENTHESIS\<rparr>] [] =
     ([], [\<lparr>value = ''('', type = PARENTHESIS\<rparr>])
   \<and> parse [\<lparr>value = ''('', type = PARENTHESIS\<rparr>, \<lparr>value = ''x'', type = OPERATOR\<rparr>] =
     [\<lparr>value = ''('', type = PARENTHESIS\<rparr>, \<lparr>value = ''x'', type = OPERATOR\<rparr>]
   \<and> precedence_at ''x'' = 0"
  by code_simp

section \<open>Tokenizing the joined lexemes again\<close>

lemma join_lexemes_Cons:
  "join_lexemes (x # xs) = x @ (if xs = [] then [] else CHR '' '' # join_lexemes xs)"
  by (cases xs) simp_all

lemma tokenize_loop_cong:
  "extract_char iss = extract_char iss' \<Longrightarrow>
   tokenize_loop iss mayBeUnary tokens = tokenize_loop iss' mayBeUnary tokens"
  by (subst tokenize_loop.simps, subst (2) tokenize_loop.simps) simp

lemma tokenize_loop_separator:
  "tokenize_loop (if xs = [] then [] else CHR '' '' # join_lexemes xs) mayBeUnary tokens =
   tokenize_loop (join_lexemes xs) mayBeUnary tokens"
  by (rule tokenize_loop_cong) (simp add: extract_char_def isspace_def)

lemma extract_char_nonspace: "\<not> isspace c \<Longrightarrow> extract_char (c # rest) = Some (c, rest)"
  by (simp add: extract_char_def)

lemma number_char_nonspace: "number_char c \<Longrightarrow> \<not> isspace c"
  by (auto simp: number_char_def isdigit_def isspace_def)

lemma operator_nonspace: "isOperator c \<Longrightarrow> \<not> isspace c"
  by (auto simp: isOperator_def isspace_def)

lemma separator_stops_number:
  "takeWhile number_char (if xs = [] then [] else CHR '' '' # join_lexemes xs) = []"
  "dropWhile number_char (if xs = [] then [] else CHR '' '' # join_lexemes xs) =
     (if xs = [] then [] else CHR '' '' # join_lexemes xs)"
  by (simp_all add: number_char_def isdigit_def)

lemma retokenize:
  "retokenizable mayBeUnary ts \<Longrightarrow>
   tokenize_loop (join_lexemes (map written_lexeme ts)) mayBeUnary tokens = tokens @ ts"
proof (induction ts arbitrary: mayBeUnary tokens)
  case Nil
  show ?case
    by (simp add: tokenize_loop_eof extract_char_def)
next
  case (Cons t ts)
  let ?tail = "if map written_lexeme ts = [] then [] else CHR '' '' # join_lexemes (map written_lexeme ts)"
  have t: "t = \<lparr>value = value t, type = type t\<rparr>"
    by simp
  show ?case
  proof (cases "type t")
    case NUMBER
    with Cons.prems obtain c cs where v: "value t = c # cs"
      and nc: "number_char c" "list_all number_char cs" and re: "retokenizable False ts"
      by (cases "value t") auto
    from NUMBER v have wl: "written_lexeme t = c # cs"
      by (simp add: written_lexeme_def)
    from nc(1) have ex: "extract_char (c # cs @ ?tail) = Some (c, cs @ ?tail)"
      by (intro extract_char_nonspace number_char_nonspace)
    from nc(2) have all: "\<And>x. x \<in> set cs \<Longrightarrow> number_char x"
      by (simp add: list_all_iff)
    have tw: "takeWhile number_char (cs @ ?tail) = cs"
      by (simp only: takeWhile_append2 [of cs number_char, OF all] separator_stops_number
          append_Nil2)
    have dw: "dropWhile number_char (cs @ ?tail) = ?tail"
      by (simp only: dropWhile_append2 [of cs number_char, OF all] separator_stops_number)
    have "tokenize_loop (join_lexemes (map written_lexeme (t # ts))) mayBeUnary tokens =
        tokenize_loop (c # cs @ ?tail) mayBeUnary tokens"
      by (simp add: join_lexemes_Cons wl)
    also have "\<dots> = tokenize_loop ?tail False (tokens @ [\<lparr>value = c # cs, type = NUMBER\<rparr>])"
      by (simp only: tokenize_loop_number [OF ex nc(1)] tw dw)
    also have "\<dots> = tokenize_loop (join_lexemes (map written_lexeme ts)) False
        (tokens @ [\<lparr>value = c # cs, type = NUMBER\<rparr>])"
      by (rule tokenize_loop_separator)
    also have "\<dots> = (tokens @ [\<lparr>value = c # cs, type = NUMBER\<rparr>]) @ ts"
      by (rule Cons.IH [OF re])
    also have "\<lparr>value = c # cs, type = NUMBER\<rparr> = t"
      using NUMBER v by simp
    finally show ?thesis by simp
  next
    case OPERATOR
    from OPERATOR Cons.prems have re: "retokenizable True ts"
      by simp
    from OPERATOR Cons.prems obtain c where wl: "written_lexeme t = [c]" and op: "isOperator c"
      and emit: "(if c = CHR ''-'' \<and> mayBeUnary then tokens @ [\<lparr>value = ''~'', type = OPERATOR\<rparr>]
         else if c = CHR ''+'' \<and> mayBeUnary then tokens
         else tokens @ [\<lparr>value = [c], type = OPERATOR\<rparr>]) = tokens @ [t]"
    proof (cases "value t = ''~''")
      case True
      with OPERATOR Cons.prems have "mayBeUnary" by simp
      with True OPERATOR show ?thesis
        by (intro that [of "CHR ''-''"]) (simp_all add: written_lexeme_def isOperator_def)
    next
      case False
      with OPERATOR Cons.prems obtain c where "value t = [c]" "isOperator c"
        "\<not> ((c = CHR ''-'' \<or> c = CHR ''+'') \<and> mayBeUnary)"
        by (auto split: list.splits)
      with False OPERATOR show ?thesis
        by (intro that [of c]) (auto simp: written_lexeme_def)
    qed
    from op have ex: "extract_char (c # ?tail) = Some (c, ?tail)"
      by (intro extract_char_nonspace operator_nonspace)
    have "tokenize_loop (join_lexemes (map written_lexeme (t # ts))) mayBeUnary tokens =
        tokenize_loop (c # ?tail) mayBeUnary tokens"
      by (simp add: join_lexemes_Cons wl)
    also have "\<dots> = tokenize_loop ?tail True (tokens @ [t])"
      by (simp only: tokenize_loop_operator [OF ex op] emit)
    also have "\<dots> = tokenize_loop (join_lexemes (map written_lexeme ts)) True (tokens @ [t])"
      by (rule tokenize_loop_separator)
    also have "\<dots> = (tokens @ [t]) @ ts"
      by (rule Cons.IH [OF re])
    finally show ?thesis by simp
  next
    case PARENTHESIS
    with Cons.prems obtain c where v: "value t = [c]" and par: "c = CHR ''('' \<or> c = CHR '')''"
      and re: "retokenizable (c = CHR ''('') ts"
      by auto
    from PARENTHESIS v have wl: "written_lexeme t = [c]"
      by (simp add: written_lexeme_def)
    from par have "\<not> isspace c"
      by (auto simp: isspace_def)
    then have ex: "extract_char (c # ?tail) = Some (c, ?tail)"
      by (rule extract_char_nonspace)
    have "tokenize_loop (join_lexemes (map written_lexeme (t # ts))) mayBeUnary tokens =
        tokenize_loop (c # ?tail) mayBeUnary tokens"
      by (simp add: join_lexemes_Cons wl)
    also have "\<dots> = tokenize_loop ?tail (c = CHR ''('') (tokens @ [\<lparr>value = [c], type = PARENTHESIS\<rparr>])"
      by (simp only: tokenize_loop_parenthesis [OF ex par])
    also have "\<dots> = tokenize_loop (join_lexemes (map written_lexeme ts)) (c = CHR ''('')
        (tokens @ [\<lparr>value = [c], type = PARENTHESIS\<rparr>])"
      by (rule tokenize_loop_separator)
    also have "\<dots> = (tokens @ [\<lparr>value = [c], type = PARENTHESIS\<rparr>]) @ ts"
      by (rule Cons.IH [OF re])
    also have "\<lparr>value = [c], type = PARENTHESIS\<rparr> = t"
      using PARENTHESIS v by simp
    finally show ?thesis by simp
  next
    case INVALID
    with Cons.prems show ?thesis by simp
  qed
qed

lemma tokenize_loop_retokenizable:
  "list_all (\<lambda>t. type t \<noteq> INVALID) (tokenize_loop iss mayBeUnary tokens) \<Longrightarrow>
   \<exists>ts. tokenize_loop iss mayBeUnary tokens = tokens @ ts \<and> retokenizable mayBeUnary ts"
proof (induction iss mayBeUnary tokens rule: tokenize_loop_induct)
  case (eof iss mayBeUnary tokens)
  then show ?case
    by (simp add: tokenize_loop_eof)
next
  case (number iss mayBeUnary tokens c rest)
  let ?t = "\<lparr>value = c # takeWhile number_char rest, type = NUMBER\<rparr>"
  note step = tokenize_loop_number [OF number(1,2)]
  from number(4) have "list_all (\<lambda>t. type t \<noteq> INVALID)
      (tokenize_loop (dropWhile number_char rest) False (tokens @ [?t]))"
    by (simp only: step)
  from number(3) [OF this] obtain ts
    where ts: "tokenize_loop (dropWhile number_char rest) False (tokens @ [?t]) = (tokens @ [?t]) @ ts"
      and re: "retokenizable False ts"
    by blast
  have "list_all number_char (takeWhile number_char rest)"
    by (auto simp: list_all_iff dest: set_takeWhileD)
  with re number(2) have "retokenizable mayBeUnary (?t # ts)"
    by simp
  moreover from ts have "tokenize_loop iss mayBeUnary tokens = tokens @ ?t # ts"
    by (simp only: step) simp
  ultimately show ?case
    by blast
next
  case (operator iss mayBeUnary tokens c rest)
  let ?tokens' = "if c = CHR ''-'' \<and> mayBeUnary then tokens @ [\<lparr>value = ''~'', type = OPERATOR\<rparr>]
     else if c = CHR ''+'' \<and> mayBeUnary then tokens
     else tokens @ [\<lparr>value = [c], type = OPERATOR\<rparr>]"
  note step = tokenize_loop_operator [OF operator(1,2)]
  from operator(4) have "list_all (\<lambda>t. type t \<noteq> INVALID) (tokenize_loop rest True ?tokens')"
    by (simp only: step)
  from operator(3) [OF this] obtain ts
    where ts: "tokenize_loop rest True ?tokens' = ?tokens' @ ts" and re: "retokenizable True ts"
    by blast
  consider (minus) "c = CHR ''-''" "mayBeUnary" | (plus) "c = CHR ''+''" "mayBeUnary"
    | (binary) "\<not> (c = CHR ''-'' \<and> mayBeUnary)" "\<not> (c = CHR ''+'' \<and> mayBeUnary)"
    by blast
  then show ?case
  proof cases
    case minus
    with re have "retokenizable mayBeUnary (\<lparr>value = ''~'', type = OPERATOR\<rparr> # ts)"
      by simp
    moreover from ts minus
    have "tokenize_loop iss mayBeUnary tokens = tokens @ \<lparr>value = ''~'', type = OPERATOR\<rparr> # ts"
      by (simp add: step)
    ultimately show ?thesis
      by blast
  next
    case plus
    with ts have "tokenize_loop iss mayBeUnary tokens = tokens @ ts"
      by (simp add: step)
    with re plus show ?thesis
      by auto
  next
    case binary
    from operator(2) have "c \<noteq> CHR ''~''"
      by (auto simp: isOperator_def)
    with re binary operator(2) have "retokenizable mayBeUnary (\<lparr>value = [c], type = OPERATOR\<rparr> # ts)"
      by auto
    moreover from ts binary
    have "tokenize_loop iss mayBeUnary tokens = tokens @ \<lparr>value = [c], type = OPERATOR\<rparr> # ts"
      by (auto simp: step)
    ultimately show ?thesis
      by blast
  qed
next
  case (parenthesis iss mayBeUnary tokens c rest)
  let ?t = "\<lparr>value = [c], type = PARENTHESIS\<rparr>"
  note step = tokenize_loop_parenthesis [OF parenthesis(1,2)]
  from parenthesis(4) have "list_all (\<lambda>t. type t \<noteq> INVALID)
      (tokenize_loop rest (c = CHR ''('') (tokens @ [?t]))"
    by (simp only: step)
  from parenthesis(3) [OF this] obtain ts
    where ts: "tokenize_loop rest (c = CHR ''('') (tokens @ [?t]) = (tokens @ [?t]) @ ts"
      and re: "retokenizable (c = CHR ''('') ts"
    by blast
  from re parenthesis(2) have "retokenizable mayBeUnary (?t # ts)"
    by auto
  moreover from ts have "tokenize_loop iss mayBeUnary tokens = tokens @ ?t # ts"
    by (simp only: step) simp
  ultimately show ?case
    by blast
next
  case (foreign iss mayBeUnary tokens c rest)
  then show ?case
    by (simp add: tokenize_loop_foreign)
qed

text \<open>
  With the unary minus written back as \<open>-\<close>, every token sequence without an invalid
  token is read back.
\<close>

lemma roundtrip_minus:
  assumes "list_all (\<lambda>t. type t \<noteq> INVALID) (tokenize expression)"
  shows "tokenize (canonical_minus (tokenize expression)) = tokenize expression"
proof -
  from assms obtain ts where "tokenize expression = ts" "retokenizable True ts"
    unfolding tokenize_def by (auto dest: tokenize_loop_retokenizable)
  then show ?thesis
    using retokenize [of True ts "[]"] by (simp add: tokenize_def canonical_minus_def)
qed

lemma canonical_without_minus:
  "list_all (\<lambda>t. value t \<noteq> ''~'') ts \<Longrightarrow> canonical_minus ts = canonical ts"
proof -
  assume "list_all (\<lambda>t. value t \<noteq> ''~'') ts"
  then have "map written_lexeme ts = map value ts"
    by (induction ts) (simp_all add: written_lexeme_def)
  then show ?thesis
    unfolding canonical_minus_def canonical_def by (rule arg_cong)
qed

text \<open>
  C9, amended. If \<open>tokenize\<close> returns no invalid token and no unary minus token
  \<open>~\<close>, then the lexemes of the tokens joined with single spaces are a string that
  \<open>tokenize\<close> turns into the same token sequence.
\<close>

theorem roundtrip_without_unary_minus:
  assumes "list_all (\<lambda>t. type t \<noteq> INVALID \<and> value t \<noteq> ''~'') (tokenize expression)"
  shows "tokenize (canonical (tokenize expression)) = tokenize expression"
proof -
  from assms have "list_all (\<lambda>t. type t \<noteq> INVALID) (tokenize expression)"
    and "list_all (\<lambda>t. value t \<noteq> ''~'') (tokenize expression)"
    by (simp_all add: list_all_iff)
  then show ?thesis
    using roundtrip_minus [of expression] canonical_without_minus [of "tokenize expression"]
    by simp
qed

theorem roundtrip_without_unary_minus_witness:
  "list_all (\<lambda>t. type t \<noteq> INVALID \<and> value t \<noteq> ''~'') (tokenize ''  12+ 3.5*(4 )'')
   \<and> canonical (tokenize ''  12+ 3.5*(4 )'') = ''12 + 3.5 * ( 4 )''
   \<and> tokenize ''12 + 3.5 * ( 4 )'' = tokenize ''  12+ 3.5*(4 )''"
proof -
  have h: "list_all (\<lambda>t. type t \<noteq> INVALID \<and> value t \<noteq> ''~'') (tokenize ''  12+ 3.5*(4 )'')"
    by code_simp
  have c: "canonical (tokenize ''  12+ 3.5*(4 )'') = ''12 + 3.5 * ( 4 )''"
    by code_simp
  from roundtrip_without_unary_minus [OF h] h c show ?thesis
    by simp
qed

text \<open>
  C9 as stated fails for an expression with a unary minus: the tokens of \<open>-5\<close> are
  \<open>~\<close> and \<open>5\<close>, no token is invalid, and the joined string \<open>~ 5\<close> starts with a
  character that the tokenizer rejects.
\<close>

theorem roundtrip_unary_minus_counterexample:
  "tokenize ''-5'' = [\<lparr>value = ''~'', type = OPERATOR\<rparr>, \<lparr>value = ''5'', type = NUMBER\<rparr>]
   \<and> canonical (tokenize ''-5'') = ''~ 5''
   \<and> tokenize (canonical (tokenize ''-5'')) = [\<lparr>value = ''~'', type = INVALID\<rparr>]
   \<and> tokenize (canonical (tokenize ''-5'')) \<noteq> tokenize ''-5''"
  by code_simp

section \<open>The empty output of the converter\<close>

lemma parse_loop_output_grows:
  "parse_loop tokens st out = Inr (st', out') \<Longrightarrow> \<exists>ext. out' = out @ ext"
proof (induction tokens arbitrary: st out)
  case Nil
  then show ?case by simp
next
  case (Cons token tokens)
  show ?case
  proof (cases "type token")
    case NUMBER
    with Cons.prems have "parse_loop tokens st (out @ [token]) = Inr (st', out')"
      by simp
    from Cons.IH [OF this] show ?thesis
      by auto
  next
    case OPERATOR
    with Cons.prems obtain st1 out1 where "pop_by_precedence token st out = (st1, out1)"
      and "parse_loop tokens (token # st1) out1 = Inr (st', out')"
      by (auto split: prod.splits)
    with Cons.IH [of "token # st1" out1] show ?thesis
      by (auto simp: pop_by_precedence_eq)
  next
    case PARENTHESIS
    show ?thesis
    proof (cases "value token = ''(''")
      case True
      with PARENTHESIS Cons.prems have "parse_loop tokens (token # st) out = Inr (st', out')"
        by simp
      from Cons.IH [OF this] show ?thesis .
    next
      case False
      with PARENTHESIS Cons.prems obtain stackTop rest
        where "dropWhile (\<lambda>t. value t \<noteq> ''('') st = stackTop # rest"
          and "parse_loop tokens rest (out @ takeWhile (\<lambda>t. value t \<noteq> ''('') st) = Inr (st', out')"
        by (auto simp: pop_to_open_eq split: list.splits if_splits)
      from Cons.IH [OF this(2)] show ?thesis
        by auto
    qed
  next
    case INVALID
    with Cons.prems show ?thesis by simp
  qed
qed

lemma parse_loop_nothing_output:
  assumes "operators_in_table tokens"
    and "\<forall>t\<in>set st. (type t = OPERATOR \<and> precedence (value t) \<noteq> None)
           \<or> (type t = PARENTHESIS \<and> value t = ''('')"
    and "parse_loop tokens st out = Inr (st', [])"
    and "\<forall>t\<in>set st'. type t \<noteq> OPERATOR"
  shows "list_all (\<lambda>t. type t = PARENTHESIS) tokens \<and> (\<forall>t\<in>set st. type t \<noteq> OPERATOR)"
  using assms
proof (induction tokens arbitrary: st out)
  case Nil
  then show ?case by simp
next
  case (Cons token tokens)
  let ?S = "\<lambda>t. (type t = OPERATOR \<and> precedence (value t) \<noteq> None)
           \<or> (type t = PARENTHESIS \<and> value t = ''('')"
  from Cons.prems(1) have tab: "operators_in_table tokens"
    and tok: "type token = OPERATOR \<longrightarrow> precedence (value token) \<noteq> None"
    by (simp_all add: operators_in_table_def)
  note IH = Cons.IH [OF tab _ _ Cons.prems(4)]
  show ?case
  proof (cases "type token")
    case INVALID
    with Cons.prems(3) show ?thesis by simp
  next
    case NUMBER
    with Cons.prems(3) have "parse_loop tokens st (out @ [token]) = Inr (st', [])"
      by simp
    from parse_loop_output_grows [OF this] show ?thesis
      by simp
  next
    case OPERATOR
    let ?P = "\<lambda>t. precedence_at (value t) \<ge> precedence_at (value token)"
    from OPERATOR Cons.prems(3)
    have run: "parse_loop tokens (token # dropWhile ?P st) (out @ takeWhile ?P st) = Inr (st', [])"
      by (simp add: pop_by_precedence_eq)
    have "?S t" if "t \<in> set (token # dropWhile ?P st)" for t
      using that OPERATOR tok Cons.prems(2) by (auto dest: set_dropWhileD)
    then have "\<forall>t\<in>set (token # dropWhile ?P st). type t \<noteq> OPERATOR"
      using IH [OF _ run] by blast
    with OPERATOR show ?thesis
      by simp
  next
    case PARENTHESIS
    show ?thesis
    proof (cases "value token = ''(''")
      case True
      with PARENTHESIS Cons.prems(3) have run: "parse_loop tokens (token # st) out = Inr (st', [])"
        by simp
      from True PARENTHESIS Cons.prems(2) have "\<forall>t\<in>set (token # st). ?S t"
        by simp
      from IH [OF this run] PARENTHESIS show ?thesis
        by simp
    next
      case False
      let ?Q = "\<lambda>t. value t \<noteq> ''(''"
      from False PARENTHESIS Cons.prems(3) obtain stackTop rest
        where dw: "dropWhile ?Q st = stackTop # rest"
          and top: "value stackTop = ''(''"
          and run: "parse_loop tokens rest (out @ takeWhile ?Q st) = Inr (st', [])"
        by (auto simp: pop_to_open_eq split: list.splits if_splits)
      from parse_loop_output_grows [OF run] have "takeWhile ?Q st = []"
        by simp
      with dw have st: "st = stackTop # rest"
        using takeWhile_dropWhile_id [of ?Q st] by simp
      with Cons.prems(2) have "\<forall>t\<in>set rest. ?S t"
        by simp
      from IH [OF this run] have "list_all (\<lambda>t. type t = PARENTHESIS) tokens"
        and "\<forall>t\<in>set rest. type t \<noteq> OPERATOR"
        by simp_all
      moreover from st top Cons.prems(2) have "type stackTop \<noteq> OPERATOR"
        by (auto simp: precedence_def)
      ultimately show ?thesis
        using PARENTHESIS st by simp
    qed
  qed
qed

lemma parse_loop_parentheses_only:
  assumes "list_all (\<lambda>t. type t = PARENTHESIS) tokens"
    and "\<forall>t\<in>set st. type t = PARENTHESIS \<and> value t = ''(''"
    and "parse_loop tokens st [] = Inr (st', out')"
  shows "out' = [] \<and> (\<forall>t\<in>set st'. type t = PARENTHESIS \<and> value t = ''('')"
  using assms
proof (induction tokens arbitrary: st)
  case Nil
  then show ?case by simp
next
  case (Cons token tokens)
  from Cons.prems(1) have par: "type token = PARENTHESIS"
    and rest: "list_all (\<lambda>t. type t = PARENTHESIS) tokens"
    by simp_all
  show ?case
  proof (cases "value token = ''(''")
    case True
    with par Cons.prems(3) have "parse_loop tokens (token # st) [] = Inr (st', out')"
      by simp
    moreover from True par Cons.prems(2)
    have "\<forall>t\<in>set (token # st). type t = PARENTHESIS \<and> value t = ''(''"
      by simp
    ultimately show ?thesis
      using Cons.IH [OF rest] by blast
  next
    case False
    show ?thesis
    proof (cases st)
      case Nil
      with False par Cons.prems(3) show ?thesis
        by simp
    next
      case (Cons stackTop rest)
      with Cons.prems(2) have top: "value stackTop = ''(''"
        and rest_ok: "\<forall>t\<in>set rest. type t = PARENTHESIS \<and> value t = ''(''"
        by simp_all
      from top have "pop_to_open (stackTop # rest) [] = (stackTop # rest, [])"
        by simp
      with False par top Cons Cons.prems(3) have "parse_loop tokens rest [] = Inr (st', out')"
        by simp
      from Cons.IH [OF rest rest_ok this] show ?thesis .
    qed
  qed
qed

lemma parse_parentheses_only:
  assumes "list_all (\<lambda>t. type t = PARENTHESIS) tokens"
  shows "parse tokens = []"
proof (cases "parse_loop tokens [] []")
  case (Inl r)
  then show ?thesis
    by (simp add: parse_def parse_run_def)
next
  case (Inr p)
  obtain st out where "p = (st, out)" by (cases p)
  with Inr have run: "parse_loop tokens [] [] = Inr (st, out)" by simp
  from parse_loop_parentheses_only [OF assms _ run]
  have out: "out = []" and st: "\<forall>t\<in>set st. type t = PARENTHESIS \<and> value t = ''(''"
    by simp_all
  show ?thesis
  proof (cases st)
    case Nil
    with run out show ?thesis
      by (simp add: parse_def parse_run_def)
  next
    case (Cons a rest)
    with st have "type a = PARENTHESIS" by simp
    with Cons run show ?thesis
      by (simp add: parse_def parse_run_def)
  qed
qed

lemma parse_empty_without_failure:
  assumes "operators_in_table tokens" and "parse tokens = []" and "\<not> isl (parse_run tokens)"
  shows "list_all (\<lambda>t. type t = PARENTHESIS) tokens"
proof -
  from assms(3) obtain st out where run: "parse_loop tokens [] [] = Inr (st, out)"
    by (cases "parse_loop tokens [] []") (auto simp: parse_run_def)
  with assms(3) have nopar: "\<not> list_ex (\<lambda>t. type t = PARENTHESIS) st"
    by (auto simp: parse_run_def pop_remaining_eq split: if_splits)
  with run assms(2) have "out = []" "st = []"
    by (simp_all add: parse_def parse_run_def pop_remaining_eq)
  with run have "parse_loop tokens [] [] = Inr ([], [])"
    by simp
  from parse_loop_nothing_output [OF assms(1) _ this] show ?thesis
    by simp
qed

text \<open>
  Outside the table the output can be empty in yet another way: an operator token with
  the lexeme \<open>(\<close> is pushed and then discarded by a closing parenthesis.
\<close>

lemma parse_empty_outside_table:
  "parse [\<lparr>value = ''('', type = OPERATOR\<rparr>, \<lparr>value = '')'', type = PARENTHESIS\<rparr>] = []
   \<and> \<not> isl (parse_run [\<lparr>value = ''('', type = OPERATOR\<rparr>, \<lparr>value = '')'', type = PARENTHESIS\<rparr>])
   \<and> \<not> operators_in_table [\<lparr>value = ''('', type = OPERATOR\<rparr>, \<lparr>value = '')'', type = PARENTHESIS\<rparr>]"
  by code_simp

text \<open>
  C5, amended. The converter returns the empty sequence in each of the three failure
  situations (some token is invalid; a closing parenthesis unwinds the operator stack
  without finding an opening one; a parenthesis is left on the stack after the last
  token), and also when every token is a parenthesis, which includes the empty
  sequence. For a token sequence whose operators are all in the precedence table, as
  every sequence that \<open>tokenize\<close> returns is, these are the only cases in which the
  output is empty. The three early returns of the code are taken exactly in the three
  failure situations. The tokens of \<open>(3 + 4\<close> are in the third situation and those of
  \<open>3 + 4)\<close> in the second.
\<close>

theorem parse_empty_characterisation:
  "(has_invalid tokens \<or> closing_unmatched tokens \<or> opening_unmatched tokens
      \<or> list_all (\<lambda>t. type t = PARENTHESIS) tokens \<longrightarrow> parse tokens = [])
   \<and> (operators_in_table tokens \<longrightarrow>
        (parse tokens = [] \<longleftrightarrow>
           has_invalid tokens \<or> closing_unmatched tokens \<or> opening_unmatched tokens
           \<or> list_all (\<lambda>t. type t = PARENTHESIS) tokens))
   \<and> (isl (parse_run tokens) \<longleftrightarrow>
        has_invalid tokens \<or> closing_unmatched tokens \<or> opening_unmatched tokens)
   \<and> operators_in_table (tokenize expression)
   \<and> opening_unmatched (tokenize ''(3 + 4'') \<and> parse (tokenize ''(3 + 4'') = []
   \<and> closing_unmatched (tokenize ''3 + 4)'') \<and> parse (tokenize ''3 + 4)'') = []"
proof -
  let ?fails = "has_invalid tokens \<or> closing_unmatched tokens \<or> opening_unmatched tokens"
  let ?parentheses = "list_all (\<lambda>t. type t = PARENTHESIS) tokens"
  have fails: "isl (parse_run tokens) \<longleftrightarrow> ?fails"
    by (rule parse_run_fails_iff)
  have a: "?fails \<or> ?parentheses \<longrightarrow> parse tokens = []"
    using fails parse_run_fails_empty [of tokens] parse_parentheses_only [of tokens] by blast
  have b: "operators_in_table tokens \<longrightarrow> (parse tokens = [] \<longleftrightarrow> ?fails \<or> ?parentheses)"
    using a fails parse_empty_without_failure [of tokens] by blast
  from a b fails tokenize_operators_in_table [of expression] open_unclosed close_unopened
  show ?thesis
    by blast
qed

theorem parse_empty_characterisation_witness:
  "has_invalid [\<lparr>value = ''3'', type = NUMBER\<rparr>, \<lparr>value = ''@'', type = INVALID\<rparr>]
   \<and> parse [\<lparr>value = ''3'', type = NUMBER\<rparr>, \<lparr>value = ''@'', type = INVALID\<rparr>] = []
   \<and> operators_in_table (tokenize ''3 + 4'')
   \<and> parse (tokenize ''3 + 4'') \<noteq> []
   \<and> \<not> has_invalid (tokenize ''3 + 4'')
   \<and> \<not> closing_unmatched (tokenize ''3 + 4'')
   \<and> \<not> opening_unmatched (tokenize ''3 + 4'')
   \<and> \<not> list_all (\<lambda>t. type t = PARENTHESIS) (tokenize ''3 + 4'')"
proof -
  have h1: "has_invalid [\<lparr>value = ''3'', type = NUMBER\<rparr>, \<lparr>value = ''@'', type = INVALID\<rparr>]"
    by code_simp
  have h2: "parse (tokenize ''3 + 4'') \<noteq> []"
    by code_simp
  from parse_empty_characterisation
      [of "[\<lparr>value = ''3'', type = NUMBER\<rparr>, \<lparr>value = ''@'', type = INVALID\<rparr>]" "''3 + 4''"]
    parse_empty_characterisation [of "tokenize ''3 + 4''" "''3 + 4''"] h1 h2
  show ?thesis
    by blast
qed

text \<open>
  C5 as stated, with the three failure situations as the only ones in which the output
  is empty, fails for the empty token sequence and for the tokens of \<open>()\<close>: the
  converter returns the empty sequence and none of the three situations holds.
\<close>

theorem parse_empty_without_failure_counterexample:
  "parse [] = [] \<and> \<not> has_invalid [] \<and> \<not> closing_unmatched [] \<and> \<not> opening_unmatched []
   \<and> tokenize ''()'' = [\<lparr>value = ''('', type = PARENTHESIS\<rparr>, \<lparr>value = '')'', type = PARENTHESIS\<rparr>]
   \<and> parse (tokenize ''()'') = []
   \<and> \<not> has_invalid (tokenize ''()'') \<and> \<not> closing_unmatched (tokenize ''()'')
   \<and> \<not> opening_unmatched (tokenize ''()'')"
  by code_simp

section \<open>Range errors of the conversion\<close>

text \<open>
  A number of 309 digits overflows. The decimal \<open>2.2250738585072012 \<sqdot> 10\<^sup>-\<^sup>3\<^sup>0\<^sup>8\<close> is
  below the least normal number and underflows: a library that reports underflow
  throws. The decimal \<open>2.2250738585072014 \<sqdot> 10\<^sup>-\<^sup>3\<^sup>0\<^sup>8\<close> is above the least normal number
  and is rounded to it.
\<close>

lemma stod_range_errors:
  "stod lib (''18'' @ replicate 307 (CHR ''0'')) = Inl out_of_range"
  "stod sample_stdlib (''0.'' @ replicate 307 (CHR ''0'') @ ''22250738585072012'') = Inl out_of_range"
  "stod lib (''0.'' @ replicate 307 (CHR ''0'') @ ''22250738585072014'') = Inr (Finite False (pow2 52) (- 1074))"
  by code_simp+

end
